theory Spec2Isabelle
  imports Main
begin

section \<open>JavaScript containers and truthiness\<close>

text \<open>
  A JavaScript \<^verbatim>\<open>Map\<close> keeps its entries in insertion order: \<^verbatim>\<open>set\<close> on a key that is
  present replaces the value in place, \<^verbatim>\<open>set\<close> on a new key appends, \<^verbatim>\<open>delete\<close> removes
  the entry. It is modelled as an association list.
\<close>

type_synonym ('k, 'v) jsmap = "('k \<times> 'v) list"

definition Map_get :: "('k, 'v) jsmap \<Rightarrow> 'k \<Rightarrow> 'v option" where
  "Map_get m k = map_of m k"

definition Map_has :: "('k, 'v) jsmap \<Rightarrow> 'k \<Rightarrow> bool" where
  "Map_has m k = (map_of m k \<noteq> None)"

primrec Map_set :: "('k, 'v) jsmap \<Rightarrow> 'k \<Rightarrow> 'v \<Rightarrow> ('k, 'v) jsmap" where
  "Map_set [] k v = [(k, v)]"
| "Map_set (p # ps) k v = (if fst p = k then (k, v) # ps else p # Map_set ps k v)"

definition Map_delete :: "('k, 'v) jsmap \<Rightarrow> 'k \<Rightarrow> ('k, 'v) jsmap" where
  "Map_delete m k = filter (\<lambda>p. fst p \<noteq> k) m"

definition Map_values :: "('k, 'v) jsmap \<Rightarrow> 'v list" where
  "Map_values m = map snd m"

text \<open>\<^verbatim>\<open>new Map(entries)\<close>: the entries are set one after the other.\<close>

definition Map_new :: "('k \<times> 'v) list \<Rightarrow> ('k, 'v) jsmap" where
  "Map_new entries = foldl (\<lambda>m e. Map_set m (fst e) (snd e)) [] entries"

text \<open>
  Reading an array out of range yields \<^verbatim>\<open>undefined\<close> (here \<open>None\<close>), it does not throw.
\<close>

definition js_index :: "'a list \<Rightarrow> int \<Rightarrow> 'a option" where
  "js_index xs i = (if 0 \<le> i \<and> nat i < length xs then Some (xs ! nat i) else None)"

text \<open>
  A sparse array of numbers is a list of slots; \<open>None\<close> is a hole (or an \<^verbatim>\<open>undefined\<close> or
  \<^verbatim>\<open>null\<close> element). \<^verbatim>\<open>arr[i] = v\<close> past the end extends the array with holes. An array
  index is an integer from 0 to \<open>2 ^ 32 - 2\<close>: for a negative \<^verbatim>\<open>i\<close>, or one from
  \<open>2 ^ 32 - 1\<close> on, JavaScript stores a property that is not an element, and the length
  and the elements, which are all that \<^verbatim>\<open>reduce\<close> and JSON see, stay as they are.
\<close>

definition array_set :: "'a option list \<Rightarrow> int \<Rightarrow> 'a \<Rightarrow> 'a option list" where
  "array_set xs i v =
     (if i < 0 \<or> 2 ^ 32 - 1 \<le> i then xs
      else if nat i < length xs then xs[nat i := Some v]
      else xs @ replicate (nat i - length xs) None @ [Some v])"

text \<open>A string or \<^verbatim>\<open>null\<close> is truthy unless it is \<^verbatim>\<open>null\<close> or the empty string.\<close>

definition truthy :: "string option \<Rightarrow> bool" where
  "truthy v = (case v of None \<Rightarrow> False | Some s \<Rightarrow> s \<noteq> [])"

section \<open>JavaScript numbers\<close>

text \<open>
  A JavaScript number is an IEEE double. The numbers of this program (round counts, game
  and round numbers, scores, times) are integers and are modelled as \<open>int\<close>; what the
  code computes from them is rounded as a double is. \<open>dbl x\<close> is the double nearest to
  \<open>x\<close>, the one with the even mantissa on a tie: \<open>expo\<close> finds the power of two that
  leaves 53 bits. Every integer up to \<open>2 ^ 53\<close> in magnitude is its own double. A
  number that arrives in a message is a double already, so an integer that is not its
  own double is not a value the code can hold; fractions are outside the model, and so
  is a magnitude of \<open>2 ^ 1024\<close> or more, which is \<^verbatim>\<open>Infinity\<close> in JavaScript.
\<close>

function expo :: "int \<Rightarrow> nat" where
  "expo n = (if n < 2 ^ 53 then 0 else Suc (expo (n div 2)))"
  by pat_completeness auto
termination
  by (relation "measure nat") auto

declare expo.simps [simp del]

definition dbl :: "int \<Rightarrow> int" where
  "dbl x =
     (let a = \<bar>x\<bar>;
          q = 2 ^ expo a;
          m = a div q;
          r = a mod q;
          m' = (if q < 2 * r \<or> (2 * r = q \<and> odd m) then m + 1 else m)
      in sgn x * (m' * q))"

text \<open>\<^verbatim>\<open>a + b\<close> and \<^verbatim>\<open>a - b\<close> on numbers: the exact result, rounded.\<close>

definition js_add :: "int \<Rightarrow> int \<Rightarrow> int" where
  "js_add a b = dbl (a + b)"

definition js_sub :: "int \<Rightarrow> int \<Rightarrow> int" where
  "js_sub a b = dbl (a - b)"

text \<open>
  \<^verbatim>\<open>parseInt\<close> turns its argument into a string and reads the leading digits. Below
  \<open>10 ^ 21\<close> a number prints as its digits and is read back as itself. From \<open>10 ^ 21\<close>
  on it prints in exponent notation, as the shortest digit string that rounds to it, and
  only the first digit is read: that is the leading digit \<open>l\<close> of the number, or the next
  one when \<open>l + 1\<close> followed by zeros already rounds to the number. \<open>top10 a\<close> is the
  largest power of ten not above \<open>a\<close>.
\<close>

function top10 :: "int \<Rightarrow> int" where
  "top10 a = (if a < 10 then 1 else 10 * top10 (a div 10))"
  by pat_completeness auto
termination
  by (relation "measure nat") auto

declare top10.simps [simp del]

definition parseInt :: "int \<Rightarrow> int" where
  "parseInt n =
     (if \<bar>n\<bar> < 10 ^ 21 then n
      else (let a = \<bar>n\<bar>;
                p = top10 a;
                l = a div p
            in sgn n * (if dbl ((l + 1) * p) = a
                        then (if l = 9 then 1 else l + 1)
                        else l)))"

section \<open>The data of a game session\<close>

type_synonym ws = nat

type_synonym game_def = "string \<times> int"

record member =
  m_playerId :: string
  m_name :: string
  m_isManager :: bool

record team =
  t_name :: string
  members :: "member list"
  totalScore :: int
  roundScores :: "int option list option"
  manager :: "string option"

record player =
  p_name :: string
  p_teamName :: string
  p_isManager :: bool
  p_connection :: ws

record buzz =
  b_playerId :: string
  b_playerName :: string
  b_teamName :: string
  b_timestamp :: int

record GameState =
  gameCode :: string
  hostId :: string
  hostConnection :: "ws option"
  currentGame :: int
  currentRound :: int
  games :: "game_def option list option"
  teams :: "(string, team) jsmap"
  players :: "(string, player) jsmap"
  buzzedPlayers :: "buzz list"
  scoringEnabled :: bool
  gameStarted :: bool
  gameEnded :: bool
  createdAt :: int

text \<open>
  \<open>games\<close> is \<open>None\<close> when the field is \<^verbatim>\<open>undefined\<close>, which a \<^verbatim>\<open>GAME_STARTED\<close> message
  without a games list makes it; an entry of the list is \<open>None\<close> when it is \<^verbatim>\<open>null\<close>.

  The constructor; \<open>now\<close> is the value of \<^verbatim>\<open>Date.now()\<close>.
\<close>

definition new_GameState :: "string \<Rightarrow> string \<Rightarrow> int \<Rightarrow> GameState" where
  "new_GameState code host now =
     \<lparr> gameCode = code, hostId = host, hostConnection = None,
       currentGame = 1, currentRound = 1, games = Some [],
       teams = [], players = [], buzzedPlayers = [],
       scoringEnabled = False, gameStarted = False, gameEnded = False,
       createdAt = now \<rparr>"

section \<open>Roster operations of \<^verbatim>\<open>GameState\<close>\<close>

text \<open>
  \<^verbatim>\<open>addPlayer\<close> first stores the player and creates the team when it is missing; what it
  then does to the team object (the rejoin check, the push, the manager rule) is
  \<open>joinedTeam\<close>.
\<close>

definition joinedTeam :: "team \<Rightarrow> string \<Rightarrow> player \<Rightarrow> team" where
  "joinedTeam team0 playerId playerData =
     (let team1 = (case find (\<lambda>m. m_playerId m = playerId) (members team0) of
                     None \<Rightarrow> team0 \<lparr> members := members team0 @
                               [\<lparr> m_playerId = playerId, m_name = p_name playerData,
                                  m_isManager = (p_isManager playerData
                                                 \<or> length (members team0) = 0) \<rparr>] \<rparr>
                   | Some existingMember \<Rightarrow> team0)
      in if p_isManager playerData \<or> \<not> truthy (manager team1)
         then team1 \<lparr> manager := Some playerId,
                      members := map (\<lambda>m. m \<lparr> m_isManager := (m_playerId m = playerId) \<rparr>)
                                     (members team1) \<rparr>
         else team1)"

definition newTeam :: "string \<Rightarrow> team" where
  "newTeam tn =
     \<lparr> t_name = tn, members = [], totalScore = 0, roundScores = Some [], manager = None \<rparr>"

definition addPlayer :: "GameState \<Rightarrow> string \<Rightarrow> player \<Rightarrow> GameState" where
  "addPlayer s playerId playerData =
     (let tn = p_teamName playerData;
          team0 = (case Map_get (teams s) tn of None \<Rightarrow> newTeam tn | Some t \<Rightarrow> t)
      in s \<lparr> players := Map_set (players s) playerId playerData,
             teams := Map_set (teams s) tn (joinedTeam team0 playerId playerData) \<rparr>)"

text \<open>
  What \<^verbatim>\<open>removePlayer\<close> does to the team object of the leaving player: the member is
  filtered out and, if it was the manager and members remain, the first one is promoted.
\<close>

definition leftTeam :: "team \<Rightarrow> string \<Rightarrow> team" where
  "leftTeam t playerId =
     (let team1 = t \<lparr> members := filter (\<lambda>m. m_playerId m \<noteq> playerId) (members t) \<rparr>
      in case members team1 of
           [] \<Rightarrow> team1
         | m0 # rest \<Rightarrow>
             if manager team1 = Some playerId
             then team1 \<lparr> manager := Some (m_playerId m0),
                          members := m0 \<lparr> m_isManager := True \<rparr> # rest \<rparr>
             else team1)"

definition removePlayer :: "GameState \<Rightarrow> string \<Rightarrow> GameState" where
  "removePlayer s playerId =
     (let teams' =
            (case Map_get (players s) playerId of
               None \<Rightarrow> teams s
             | Some pl \<Rightarrow>
                 (case Map_get (teams s) (p_teamName pl) of
                    None \<Rightarrow> teams s
                  | Some t \<Rightarrow>
                      if length (members (leftTeam t playerId)) = 0
                      then Map_delete (teams s) (p_teamName pl)
                      else Map_set (teams s) (p_teamName pl) (leftTeam t playerId)))
      in s \<lparr> teams := teams',
             players := Map_delete (players s) playerId,
             buzzedPlayers := filter (\<lambda>b. b_playerId b \<noteq> playerId) (buzzedPlayers s) \<rparr>)"

text \<open>\<^verbatim>\<open>handleBuzz\<close> returns its boolean together with the session; \<open>now\<close> is the clock.\<close>

definition handleBuzz :: "GameState \<Rightarrow> string \<Rightarrow> int \<Rightarrow> bool \<times> GameState" where
  "handleBuzz s playerId now =
     (case Map_get (players s) playerId of
        None \<Rightarrow> (False, s)
      | Some pl \<Rightarrow>
          if \<not> gameStarted s then (False, s)
          else if list_ex (\<lambda>b. case Map_get (players s) (b_playerId b) of
                                  None \<Rightarrow> False
                                | Some buzzedPlayer \<Rightarrow> p_teamName buzzedPlayer = p_teamName pl)
                          (buzzedPlayers s)
          then (False, s)
          else (True, s \<lparr> buzzedPlayers := buzzedPlayers s @
                            [\<lparr> b_playerId = playerId, b_playerName = p_name pl,
                               b_teamName = p_teamName pl, b_timestamp = now \<rparr>] \<rparr>))"

section \<open>The session mutations of the host-only handlers\<close>

text \<open>
  Each host-only handler looks the session up in the registry, returns when it is absent
  or the sender is not bound as host, and otherwise mutates the session. The mutations
  are the functions below: \<open>startGame\<close> is that of \<^verbatim>\<open>handleGameStarted\<close>, \<open>roundUpdate\<close>
  of \<^verbatim>\<open>handleRoundUpdate\<close>, \<open>clearAllBuzzes\<close> of \<^verbatim>\<open>handleClearBuzzers\<close>, \<open>clearBuzzFor\<close> of
  \<^verbatim>\<open>handleClearPlayerBuzz\<close>, \<open>popLastBuzz\<close> of \<^verbatim>\<open>handleClearLastBuzz\<close>, \<open>enableScoring\<close> of
  \<^verbatim>\<open>handleEnableScoring\<close>, \<open>setManager\<close> of \<^verbatim>\<open>handleManagerChanged\<close>, \<open>setScores\<close> of
  \<^verbatim>\<open>handleScoreUpdated\<close>, \<open>revealFinalScores\<close> of \<^verbatim>\<open>handleRevealFinalScores\<close>, and
  \<open>playerDisconnected\<close> is the player branch of \<^verbatim>\<open>handleDisconnection\<close>.
\<close>

definition startGame ::
  "GameState \<Rightarrow> game_def option list option \<Rightarrow> int \<Rightarrow> int \<Rightarrow> GameState" where
  "startGame s gs cg cr =
     s \<lparr> gameStarted := True, games := gs, currentGame := cg, currentRound := cr \<rparr>"

definition roundUpdate :: "GameState \<Rightarrow> int \<Rightarrow> int \<Rightarrow> GameState" where
  "roundUpdate s cg cr = s \<lparr> currentGame := cg, currentRound := cr, scoringEnabled := False \<rparr>"

definition clearAllBuzzes :: "GameState \<Rightarrow> GameState" where
  "clearAllBuzzes s = s \<lparr> buzzedPlayers := [] \<rparr>"

text \<open>\<^verbatim>\<open>findIndex\<close> followed by \<^verbatim>\<open>splice(buzzIndex, 1)\<close>: the first match is removed.\<close>

primrec splice_first :: "('a \<Rightarrow> bool) \<Rightarrow> 'a list \<Rightarrow> 'a list" where
  "splice_first P [] = []"
| "splice_first P (x # xs) = (if P x then xs else x # splice_first P xs)"

definition clearBuzzFor :: "GameState \<Rightarrow> string \<Rightarrow> GameState" where
  "clearBuzzFor s playerId =
     s \<lparr> buzzedPlayers := splice_first (\<lambda>b. b_playerId b = playerId) (buzzedPlayers s) \<rparr>"

definition popLastBuzz :: "GameState \<Rightarrow> GameState" where
  "popLastBuzz s =
     (if length (buzzedPlayers s) > 0 then s \<lparr> buzzedPlayers := butlast (buzzedPlayers s) \<rparr>
      else s)"

definition enableScoring :: "GameState \<Rightarrow> GameState" where
  "enableScoring s = s \<lparr> scoringEnabled := True \<rparr>"

definition setManager :: "GameState \<Rightarrow> string \<Rightarrow> string \<Rightarrow> GameState" where
  "setManager s teamName newManagerId =
     (case Map_get (teams s) teamName of
        None \<Rightarrow> s
      | Some t \<Rightarrow>
          s \<lparr> teams := Map_set (teams s) teamName
                 (t \<lparr> manager := Some newManagerId,
                      members := map (\<lambda>m. m \<lparr> m_isManager := (m_playerId m = newManagerId) \<rparr>)
                                     (members t) \<rparr>) \<rparr>)"

definition setScores :: "GameState \<Rightarrow> string \<Rightarrow> int option list option \<Rightarrow> int \<Rightarrow> GameState" where
  "setScores s teamName scores newTotal =
     (case Map_get (teams s) teamName of
        None \<Rightarrow> s
      | Some t \<Rightarrow>
          s \<lparr> teams := Map_set (teams s) teamName
                 (t \<lparr> roundScores := scores, totalScore := newTotal \<rparr>) \<rparr>)"

definition revealFinalScores :: "GameState \<Rightarrow> GameState" where
  "revealFinalScores s = s \<lparr> gameEnded := True \<rparr>"

definition playerDisconnected :: "GameState \<Rightarrow> string \<Rightarrow> GameState" where
  "playerDisconnected s playerId =
     s \<lparr> buzzedPlayers := filter (\<lambda>b. b_playerId b \<noteq> playerId) (buzzedPlayers s) \<rparr>"

section \<open>Score submission\<close>

text \<open>
  What a piece of code does when it ends: it returns a value or throws. A piece of code
  that can also run forever has an option of that as result, \<open>None\<close> for never ending.
\<close>

datatype error = TypeError

datatype 'a outcome = Returns 'a | Throws error

text \<open>
  The loop of \<^verbatim>\<open>handleSubmitScore\<close> over the games before \<^verbatim>\<open>gameNum\<close>; \<open>g\<close> is the loop
  variable and \<open>acc\<close> the running \<^verbatim>\<open>roundIndex\<close>. Reading \<^verbatim>\<open>game.games[g-1]\<close> throws a
  \<^verbatim>\<open>TypeError\<close> when \<^verbatim>\<open>game.games\<close> is \<^verbatim>\<open>undefined\<close>. \<^verbatim>\<open>g++\<close> is an addition of doubles: at
  \<open>2 ^ 53\<close> it leaves \<open>g\<close> as it is, and the loop does not end when \<^verbatim>\<open>gameNum\<close> is larger.
\<close>

partial_function (option) roundIndex_loop ::
  "game_def option list option \<Rightarrow> int \<Rightarrow> int \<Rightarrow> int \<Rightarrow> int outcome option" where
  "roundIndex_loop gs gameNum g acc =
     (if g < gameNum
      then (case gs of
              None \<Rightarrow> Some (Throws TypeError)
            | Some l \<Rightarrow>
                roundIndex_loop gs gameNum (js_add g 1)
                  (case js_index l (js_sub g 1) of
                     Some (Some gd) \<Rightarrow> js_add acc (parseInt (snd gd))
                   | _ \<Rightarrow> acc))
      else Some (Returns acc))"

declare roundIndex_loop.simps [code]

definition roundIndex_of :: "game_def option list option \<Rightarrow> int \<Rightarrow> int \<Rightarrow> int outcome option" where
  "roundIndex_of gs gameNum round =
     (case roundIndex_loop gs gameNum 1 0 of
        None \<Rightarrow> None
      | Some (Throws e) \<Rightarrow> Some (Throws e)
      | Some (Returns roundIndex) \<Rightarrow> Some (Returns (js_add roundIndex (js_sub round 1))))"

text \<open>\<^verbatim>\<open>roundScores.reduce((sum, s) => sum + (s || 0), 0)\<close>; holes are skipped.\<close>

definition reduce_scores :: "int option list \<Rightarrow> int" where
  "reduce_scores rs =
     foldl (\<lambda>sum s. js_add sum (case s of None \<Rightarrow> 0 | Some v \<Rightarrow> v)) 0 rs"

text \<open>The team after the score has been set and the total recomputed.\<close>

definition scoredTeam :: "team \<Rightarrow> int \<Rightarrow> int \<Rightarrow> team" where
  "scoredTeam t roundIndex score =
     (let rs0 = (case roundScores t of None \<Rightarrow> [] | Some rs \<Rightarrow> rs);
          rs1 = array_set rs0 roundIndex score
      in t \<lparr> roundScores := Some rs1, totalScore := reduce_scores rs1 \<rparr>)"

text \<open>
  The mutation of the session by \<^verbatim>\<open>handleSubmitScore\<close>. The handler changes the session
  only after the index loop has returned: when the loop throws the session is as it
  was, and when the loop never ends the server has no later state.
\<close>

definition submitScore :: "GameState \<Rightarrow> string \<Rightarrow> string \<Rightarrow> int \<Rightarrow> int \<Rightarrow> int \<Rightarrow> GameState" where
  "submitScore s playerId teamName score gameNum round =
     (case Map_get (teams s) teamName of
        None \<Rightarrow> s
      | Some t \<Rightarrow>
          if Map_get (players s) playerId = None \<or> manager t \<noteq> Some playerId then s
          else (case roundIndex_of (games s) gameNum round of
                  Some (Returns roundIndex) \<Rightarrow>
                    s \<lparr> teams := Map_set (teams s) teamName (scoredTeam t roundIndex score) \<rparr>
                | _ \<Rightarrow> s))"

section \<open>Sequences of operations on a session\<close>

text \<open>
  A session as it enters the registry: \<^verbatim>\<open>handleCreateGame\<close> constructs it and sets the
  host connection to the sender; a session restored from the store has no host
  connection.
\<close>

definition initial_session :: "string \<Rightarrow> string \<Rightarrow> int \<Rightarrow> ws option \<Rightarrow> GameState" where
  "initial_session code host now hc = (new_GameState code host now) \<lparr> hostConnection := hc \<rparr>"

datatype session_op =
    AddPlayer string player
  | RemovePlayer string
  | Buzz string int
  | GameStarted "game_def option list option" int int
  | RoundUpdate int int
  | ClearBuzzers
  | ClearPlayerBuzz string
  | ClearLastBuzz
  | EnableScoring
  | SubmitScore string string int int int
  | ManagerChanged string string
  | ScoreUpdated string "int option list option" int
  | RevealFinalScores
  | PlayerDisconnected string

fun apply_op :: "GameState \<Rightarrow> session_op \<Rightarrow> GameState" where
  "apply_op s (AddPlayer playerId playerData) = addPlayer s playerId playerData"
| "apply_op s (RemovePlayer playerId) = removePlayer s playerId"
| "apply_op s (Buzz playerId now) = snd (handleBuzz s playerId now)"
| "apply_op s (GameStarted gs cg cr) = startGame s gs cg cr"
| "apply_op s (RoundUpdate cg cr) = roundUpdate s cg cr"
| "apply_op s ClearBuzzers = clearAllBuzzes s"
| "apply_op s (ClearPlayerBuzz playerId) = clearBuzzFor s playerId"
| "apply_op s ClearLastBuzz = popLastBuzz s"
| "apply_op s EnableScoring = enableScoring s"
| "apply_op s (SubmitScore playerId teamName score gameNum round) =
     submitScore s playerId teamName score gameNum round"
| "apply_op s (ManagerChanged teamName newManagerId) = setManager s teamName newManagerId"
| "apply_op s (ScoreUpdated teamName scores newTotal) = setScores s teamName scores newTotal"
| "apply_op s RevealFinalScores = revealFinalScores s"
| "apply_op s (PlayerDisconnected playerId) = playerDisconnected s playerId"

definition run :: "GameState \<Rightarrow> session_op list \<Rightarrow> GameState" where
  "run s ops = foldl apply_op s ops"

definition roster_op :: "session_op \<Rightarrow> bool" where
  "roster_op op = (case op of AddPlayer _ _ \<Rightarrow> True | RemovePlayer _ \<Rightarrow> True | _ \<Rightarrow> False)"

section \<open>Properties of a team\<close>

text \<open>
  Exactly one member is flagged manager, and the team's \<^verbatim>\<open>manager\<close> field is that member's
  id.
\<close>

definition exactly_one_manager :: "team \<Rightarrow> bool" where
  "exactly_one_manager t =
     (case filter m_isManager (members t) of
        [m] \<Rightarrow> manager t = Some (m_playerId m)
      | _ \<Rightarrow> False)"

text \<open>The sum of the defined entries of a team's round scores.\<close>

definition sum_defined :: "int option list option \<Rightarrow> int" where
  "sum_defined rs =
     (case rs of
        None \<Rightarrow> 0
      | Some xs \<Rightarrow> sum_list (map (\<lambda>s. case s of None \<Rightarrow> 0 | Some v \<Rightarrow> v) xs))"

definition total_ok :: "team \<Rightarrow> bool" where
  "total_ok t = (totalScore t = sum_defined (roundScores t))"

section \<open>The registry, the connection directory and the store\<close>

datatype conn_type = Host | Player

record connInfo =
  c_type :: conn_type
  c_gameCode :: string
  c_hostId :: "string option"
  c_playerId :: "string option"
  c_teamName :: "string option"

text \<open>The record \<^verbatim>\<open>plainState\<close> written to the store, one per game code.\<close>

record plainState =
  ps_gameCode :: string
  ps_hostId :: string
  ps_currentGame :: int
  ps_currentRound :: int
  ps_games :: "game_def option list option"
  ps_teams :: "team list option"
  ps_players :: "(string \<times> player) list option"
  ps_buzzedPlayers :: "buzz list option"
  ps_scoringEnabled :: bool
  ps_gameStarted :: bool
  ps_gameEnded :: bool
  ps_createdAt :: int
  ps_expiresAt :: int

record server =
  srv_games :: "(string, GameState) jsmap"
  srv_connections :: "(ws, connInfo) jsmap"
  srv_db :: "(string, plainState) jsmap"

text \<open>
  The messages the modelled handlers send. The fields of \<open>SCORE_SUBMITTED\<close> are teamName,
  score, roundIndex, totalScore and roundScores; those of \<open>SCORE_CONFIRMED\<close> are score and
  totalScore; those of \<open>GAME_CREATED\<close> are gameCode and restored.
\<close>

datatype outmsg =
    ERROR string
  | SCORE_SUBMITTED string int int int "int option list"
  | SCORE_CONFIRMED int int
  | GAME_CREATED string bool

text \<open>
  \<open>isOpen\<close> tells whether a channel's \<^verbatim>\<open>readyState\<close> is \<^verbatim>\<open>OPEN\<close>; it belongs to the
  transport.
\<close>

definition sendToHost :: "(ws \<Rightarrow> bool) \<Rightarrow> server \<Rightarrow> string \<Rightarrow> outmsg \<Rightarrow> (ws \<times> outmsg) list" where
  "sendToHost isOpen srv code msg =
     (case Map_get (srv_games srv) code of
        None \<Rightarrow> []
      | Some game \<Rightarrow>
          (case hostConnection game of
             None \<Rightarrow> []
           | Some h \<Rightarrow> if isOpen h then [(h, msg)] else []))"

record submit_msg =
  sm_gameCode :: string
  sm_playerId :: string
  sm_teamName :: string
  sm_score :: int
  sm_game :: int
  sm_round :: int

text \<open>
  \<^verbatim>\<open>handleSubmitScore\<close> returns the server and the messages it has sent, throws (the
  caller's \<^verbatim>\<open>catch\<close> then answers the sender ``Invalid message format''), or never ends.
\<close>

definition handleSubmitScore ::
  "(ws \<Rightarrow> bool) \<Rightarrow> server \<Rightarrow> ws \<Rightarrow> submit_msg
     \<Rightarrow> (server \<times> (ws \<times> outmsg) list) outcome option" where
  "handleSubmitScore isOpen srv sender msg =
     (case Map_get (srv_games srv) (sm_gameCode msg) of
        None \<Rightarrow> Some (Returns (srv, []))
      | Some game \<Rightarrow>
          (case Map_get (teams game) (sm_teamName msg) of
             None \<Rightarrow> Some (Returns (srv, []))
           | Some t \<Rightarrow>
               if Map_get (players game) (sm_playerId msg) = None
                  \<or> manager t \<noteq> Some (sm_playerId msg)
               then Some (Returns (srv, [(sender, ERROR ''Only team managers can submit scores'')]))
               else
                 (case roundIndex_of (games game) (sm_game msg) (sm_round msg) of
                    None \<Rightarrow> None
                  | Some (Throws e) \<Rightarrow> Some (Throws e)
                  | Some (Returns roundIndex) \<Rightarrow>
                      (let t' = scoredTeam t roundIndex (sm_score msg);
                           game' = game \<lparr> teams := Map_set (teams game) (sm_teamName msg) t' \<rparr>;
                           srv' = srv \<lparr> srv_games :=
                                    Map_set (srv_games srv) (sm_gameCode msg) game' \<rparr>
                       in Some (Returns (srv',
                            sendToHost isOpen srv' (sm_gameCode msg)
                              (SCORE_SUBMITTED (sm_teamName msg) (sm_score msg) roundIndex
                                 (totalScore t')
                                 (case roundScores t' of None \<Rightarrow> [] | Some rs \<Rightarrow> rs))
                            @ [(sender, SCORE_CONFIRMED (sm_score msg) (totalScore t'))]))))))"

section \<open>Persistence\<close>

text \<open>
  \<^verbatim>\<open>Date.now()\<close> is a time value: an integer of at most 8.64e15 in magnitude.
\<close>

definition valid_time :: "int \<Rightarrow> bool" where
  "valid_time t = (\<bar>t\<bar> \<le> 8640000000000000)"

text \<open>
  The store is taken to give back the record that was written. The record holds each
  player's data with its connection object; what the store makes of such an object is
  not modelled, and nothing proved below is about it.
\<close>

definition saveGameState ::
  "(string, plainState) jsmap \<Rightarrow> string \<Rightarrow> GameState \<Rightarrow> int \<Rightarrow> (string, plainState) jsmap" where
  "saveGameState db code gameState now =
     Map_set db code
       \<lparr> ps_gameCode = gameCode gameState,
         ps_hostId = hostId gameState,
         ps_currentGame = currentGame gameState,
         ps_currentRound = currentRound gameState,
         ps_games = games gameState,
         ps_teams = Some (Map_values (teams gameState)),
         ps_players = Some (players gameState),
         ps_buzzedPlayers = Some (buzzedPlayers gameState),
         ps_scoringEnabled = scoringEnabled gameState,
         ps_gameStarted = gameStarted gameState,
         ps_gameEnded = gameEnded gameState,
         ps_createdAt = createdAt gameState,
         ps_expiresAt = js_add now (4 * 60 * 60 * 1000) \<rparr>"

definition or_empty :: "'a list option \<Rightarrow> 'a list" where
  "or_empty v = (case v of None \<Rightarrow> [] | Some xs \<Rightarrow> xs)"

definition loadGameState :: "(string, plainState) jsmap \<Rightarrow> string \<Rightarrow> int \<Rightarrow> GameState option" where
  "loadGameState db code now =
     (case Map_get db code of
        None \<Rightarrow> None
      | Some d \<Rightarrow>
          if ps_expiresAt d \<noteq> 0 \<and> now > ps_expiresAt d then None
          else Some ((new_GameState (ps_gameCode d) (ps_hostId d) now)
                 \<lparr> currentGame := ps_currentGame d,
                   currentRound := ps_currentRound d,
                   games := Some (or_empty (ps_games d)),
                   teams := Map_new (map (\<lambda>t. (t_name t, t)) (or_empty (ps_teams d))),
                   players := Map_new (or_empty (ps_players d)),
                   buzzedPlayers := or_empty (ps_buzzedPlayers d),
                   scoringEnabled := ps_scoringEnabled d,
                   gameStarted := ps_gameStarted d,
                   gameEnded := ps_gameEnded d,
                   createdAt := ps_createdAt d \<rparr>))"

section \<open>Creating a game\<close>

text \<open>
  \<^verbatim>\<open>generateGameCode\<close> draws from \<^verbatim>\<open>Math.random\<close>: \<open>rnd i\<close> is the code of the \<open>i\<close>-th call.
  The loop that looks for an unused code ends only when the generator yields one, so
  its result is an option and \<open>None\<close> stands for a loop that never ends.
\<close>

partial_function (option) uniqueGameCode ::
  "(string, GameState) jsmap \<Rightarrow> (nat \<Rightarrow> string) \<Rightarrow> nat \<Rightarrow> string \<Rightarrow> string option" where
  "uniqueGameCode gs rnd i code =
     (if Map_has gs code then uniqueGameCode gs rnd (Suc i) (rnd i) else Some code)"

declare uniqueGameCode.simps [code]

record create_msg =
  cm_gameCode :: "string option"
  cm_hostId :: string

text \<open>
  \<open>now\<close> is the clock read by the constructor, \<open>saveNow\<close> the clock read by
  \<^verbatim>\<open>saveGameState\<close>.
\<close>

definition handleCreateGame ::
  "server \<Rightarrow> (nat \<Rightarrow> string) \<Rightarrow> int \<Rightarrow> int \<Rightarrow> ws \<Rightarrow> create_msg
     \<Rightarrow> (server \<times> (ws \<times> outmsg) list) option" where
  "handleCreateGame srv rnd now saveNow sender msg =
     (let start = (case cm_gameCode msg of
                     None \<Rightarrow> (rnd 0, Suc 0)
                   | Some c \<Rightarrow> if c \<noteq> [] then (c, 0) else (rnd 0, Suc 0))
      in case uniqueGameCode (srv_games srv) rnd (snd start) (fst start) of
           None \<Rightarrow> None
         | Some code \<Rightarrow>
             (let gameState = (new_GameState code (cm_hostId msg) now) \<lparr> hostConnection := Some sender \<rparr>
              in Some (srv \<lparr> srv_games := Map_set (srv_games srv) code gameState,
                             srv_db := saveGameState (srv_db srv) code gameState saveNow,
                             srv_connections := Map_set (srv_connections srv) sender
                               \<lparr> c_type = Host, c_gameCode = code,
                                 c_hostId = Some (cm_hostId msg),
                                 c_playerId = None, c_teamName = None \<rparr> \<rparr>,
                      [(sender, GAME_CREATED code False)])))"

section \<open>Invariants and the specification's formulas\<close>

text \<open>
  The roster invariant of a team: it has members, their ids are distinct, and the
  \<^verbatim>\<open>manager\<close> field names a member who is the only one flagged.
\<close>

definition team_ok :: "team \<Rightarrow> bool" where
  "team_ok t =
     (members t \<noteq> [] \<and> distinct (map m_playerId (members t)) \<and>
      (\<exists>p. manager t = Some p \<and> p \<in> set (map m_playerId (members t)) \<and>
           (\<forall>m\<in>set (members t). m_isManager m = (m_playerId m = p))))"

text \<open>
  The round count an entry of the games list contributes: a missing (\<^verbatim>\<open>null\<close>) entry
  contributes nothing.
\<close>

definition rounds_of :: "game_def option \<Rightarrow> int" where
  "rounds_of e = (case e of None \<Rightarrow> 0 | Some gd \<Rightarrow> snd gd)"

text \<open>
  The flattened round index in the words of the specification: the sum of the round
  counts of the games before game \<open>g\<close>, plus \<open>r - 1\<close>.
\<close>

definition flat_index :: "game_def option list \<Rightarrow> int \<Rightarrow> int \<Rightarrow> int" where
  "flat_index gs g r = sum_list (map rounds_of (take (nat (g - 1)) gs)) + (r - 1)"


text \<open>
  Round scores that keep every sum of the code exact: the array has fewer than \<open>2 ^ 32\<close>
  slots, as every JavaScript array has, and no entry exceeds \<open>2 ^ 21\<close> in magnitude, so
  that no sum of entries exceeds \<open>2 ^ 53\<close>.
\<close>

definition small_slot :: "int option \<Rightarrow> bool" where
  "small_slot s = (case s of None \<Rightarrow> True | Some v \<Rightarrow> \<bar>v\<bar> \<le> 2 ^ 21)"

definition small_scores :: "int option list option \<Rightarrow> bool" where
  "small_scores rs =
     (case rs of
        None \<Rightarrow> True
      | Some xs \<Rightarrow> int (length xs) < 2 ^ 32 \<and> list_all small_slot xs)"

text \<open>
  A \<^verbatim>\<open>SCORE_UPDATED\<close> whose total is the sum of the scores it carries, those scores being
  small; a \<^verbatim>\<open>SUBMIT_SCORE\<close> whose score is small. Every other operation counts as
  consistent.
\<close>

definition consistent_op :: "session_op \<Rightarrow> bool" where
  "consistent_op op =
     (case op of
        ScoreUpdated _ scores newTotal \<Rightarrow> newTotal = sum_defined scores \<and> small_scores scores
      | SubmitScore _ _ score _ _ \<Rightarrow> \<bar>score\<bar> \<le> 2 ^ 21
      | _ \<Rightarrow> True)"

text \<open>The invariant of a team's scores: the total is the sum, and the scores are small.\<close>

definition scores_ok :: "team \<Rightarrow> bool" where
  "scores_ok t = (total_ok t \<and> small_scores (roundScores t))"

text \<open>A teams map in which no key occurs twice and every team is stored under its name.\<close>

definition keyed_teams :: "(string, team) jsmap \<Rightarrow> bool" where
  "keyed_teams m = (distinct (map fst m) \<and> (\<forall>e\<in>set m. t_name (snd e) = fst e))"

text \<open>
  The keys of the two maps of a session: no key occurs twice, and every team is stored
  under its own name.
\<close>

definition keyed :: "GameState \<Rightarrow> bool" where
  "keyed s =
     (distinct (map fst (teams s)) \<and> distinct (map fst (players s)) \<and>
      (\<forall>e\<in>set (teams s). t_name (snd e) = fst e))"

text \<open>A transport on which every channel is open.\<close>

definition allOpen :: "ws \<Rightarrow> bool" where
  "allOpen w = True"

text \<open>A generator of game codes whose first draw is 100000 and every later one 100001.\<close>

definition exampleCodes :: "nat \<Rightarrow> string" where
  "exampleCodes i = (if i = 0 then ''100000'' else ''100001'')"

text \<open>
  An operation that does not move a known player to another team: an \<^verbatim>\<open>addPlayer\<close> for
  an id that is in the players map carries the team name stored there.
\<close>

definition keeps_team :: "GameState \<Rightarrow> session_op \<Rightarrow> bool" where
  "keeps_team s op =
     (case op of
        AddPlayer playerId playerData \<Rightarrow>
          (case Map_get (players s) playerId of
             None \<Rightarrow> True
           | Some pl \<Rightarrow> p_teamName pl = p_teamName playerData)
      | _ \<Rightarrow> True)"

fun no_team_switch :: "GameState \<Rightarrow> session_op list \<Rightarrow> bool" where
  "no_team_switch s [] = True"
| "no_team_switch s (op # ops) = (keeps_team s op \<and> no_team_switch (apply_op s op) ops)"

text \<open>
  The queue invariant that holds while nobody switches team: the team names of the
  records are distinct, and every record's player is in the players map under the team
  the record names.
\<close>

definition buzz_ok :: "GameState \<Rightarrow> bool" where
  "buzz_ok s =
     (distinct (map b_teamName (buzzedPlayers s)) \<and>
      (\<forall>b\<in>set (buzzedPlayers s).
         \<exists>pl. Map_get (players s) (b_playerId b) = Some pl \<and> p_teamName pl = b_teamName b))"

section \<open>Example data\<close>

abbreviation ann :: player where
  "ann \<equiv> \<lparr> p_name = ''Ann'', p_teamName = ''Red'', p_isManager = False, p_connection = 11 \<rparr>"

abbreviation bob :: player where
  "bob \<equiv> \<lparr> p_name = ''Bob'', p_teamName = ''Red'', p_isManager = True, p_connection = 12 \<rparr>"

abbreviation two_games :: "game_def option list" where
  "two_games \<equiv> [Some (''A'', 3), Some (''B'', 2)]"

text \<open>A started session with host channel 10, the games A and B, and Ann managing Red.\<close>

definition red_game :: GameState where
  "red_game =
     startGame (addPlayer ((new_GameState ''123456'' ''host'' 0) \<lparr> hostConnection := Some 10 \<rparr>)
                  ''p1'' ann) (Some two_games) 1 1"

definition red_server :: server where
  "red_server = \<lparr> srv_games = [(''123456'', red_game)], srv_connections = [], srv_db = [] \<rparr>"

abbreviation red_team :: team where
  "red_team \<equiv>
     \<lparr> t_name = ''Red'',
       members = [\<lparr> m_playerId = ''p1'', m_name = ''Ann'', m_isManager = True \<rparr>],
       totalScore = 0, roundScores = Some [], manager = Some ''p1'' \<rparr>"

text \<open>A registry with two sessions, under the codes 100000 and 123456.\<close>

definition two_servers :: server where
  "two_servers =
     \<lparr> srv_games = [(''100000'', new_GameState ''100000'' ''h0'' 0), (''123456'', red_game)],
       srv_connections = [], srv_db = [] \<rparr>"

section \<open>Facts about the containers\<close>

lemma Map_get_Map_set: "Map_get (Map_set m k v) k' = (if k' = k then Some v else Map_get m k')"
  by (induction m) (auto simp: Map_get_def)

lemma Map_values_Map_set:
  "x \<in> set (Map_values (Map_set m k v)) \<Longrightarrow> x = v \<or> x \<in> set (Map_values m)"
  by (induction m) (auto simp: Map_values_def split: if_splits)

lemma Map_values_Map_delete:
  "x \<in> set (Map_values (Map_delete m k)) \<Longrightarrow> x \<in> set (Map_values m)"
  by (auto simp: Map_values_def Map_delete_def)

lemma Map_get_values: "Map_get m k = Some v \<Longrightarrow> v \<in> set (Map_values m)"
  by (force simp: Map_get_def Map_values_def dest: map_of_SomeD)

lemma find_None_playerId:
  "find (\<lambda>m. m_playerId m = p) ms = None \<longleftrightarrow> p \<notin> set (map m_playerId ms)"
  by (auto simp: find_None_iff)

lemma filter_single:
  "distinct (map f xs) \<Longrightarrow> x \<in> set xs \<Longrightarrow> filter (\<lambda>y. f y = f x) xs = [x]"
proof (induction xs)
  case Nil
  then show ?case by simp
next
  case (Cons a xs)
  show ?case
  proof (cases "a = x")
    case True
    with Cons.prems have "\<forall>y\<in>set xs. f y \<noteq> f x" by (auto simp: image_iff)
    then have "filter (\<lambda>y. f y = f x) xs = []" by (simp add: filter_empty_conv)
    with True show ?thesis by simp
  next
    case False
    with Cons.prems have "x \<in> set xs" "f a \<noteq> f x" by auto
    with Cons show ?thesis by simp
  qed
qed

lemma team_ok_exactly_one: "team_ok t \<Longrightarrow> exactly_one_manager t"
proof -
  assume ok: "team_ok t"
  then obtain p where p: "manager t = Some p" "p \<in> set (map m_playerId (members t))"
    "\<forall>m\<in>set (members t). m_isManager m = (m_playerId m = p)"
    and d: "distinct (map m_playerId (members t))"
    by (auto simp: team_ok_def)
  from p(2) obtain x where x: "x \<in> set (members t)" "m_playerId x = p" by auto
  have "filter m_isManager (members t) = filter (\<lambda>y. m_playerId y = m_playerId x) (members t)"
    using p(3) x(2) by (intro filter_cong) auto
  also have "\<dots> = [x]" using d x(1) by (rule filter_single)
  finally show ?thesis using p(1) x(2) by (simp add: exactly_one_manager_def)
qed


lemma teams_addPlayer:
  "teams (addPlayer s pid pd) =
     Map_set (teams s) (p_teamName pd)
       (joinedTeam (case Map_get (teams s) (p_teamName pd) of
                       None \<Rightarrow> newTeam (p_teamName pd) | Some t \<Rightarrow> t) pid pd)"
  by (simp add: addPlayer_def Let_def)

lemma teams_removePlayer:
  "teams (removePlayer s pid) =
     (case Map_get (players s) pid of
        None \<Rightarrow> teams s
      | Some pl \<Rightarrow>
          (case Map_get (teams s) (p_teamName pl) of
             None \<Rightarrow> teams s
           | Some t \<Rightarrow>
               if members (leftTeam t pid) = [] then Map_delete (teams s) (p_teamName pl)
               else Map_set (teams s) (p_teamName pl) (leftTeam t pid)))"
  by (simp add: removePlayer_def Let_def split: option.splits)

lemma map_flag_ids [simp]:
  "map m_playerId (map (\<lambda>m. m \<lparr> m_isManager := f m \<rparr>) ms) = map m_playerId ms"
  by (induction ms) auto

lemma reset_flags_ok:
  assumes "distinct (map m_playerId ms)" "pid \<in> set (map m_playerId ms)"
  shows "team_ok (t \<lparr> manager := Some pid,
                     members := map (\<lambda>m. m \<lparr> m_isManager := (m_playerId m = pid) \<rparr>) ms \<rparr>)"
proof -
  from assms(2) have "ms \<noteq> []" by auto
  moreover have "pid \<in> m_playerId ` set ms" using assms(2) by simp
  ultimately show ?thesis
    using assms(1) unfolding team_ok_def by (simp del: map_map)
qed

lemma joined_fresh_ok: "team_ok (joinedTeam (newTeam tn) pid pd)"
  by (simp add: joinedTeam_def newTeam_def team_ok_def truthy_def)

lemma joined_team_ok:
  assumes ok: "team_ok t"
  shows "team_ok (joinedTeam t pid pd)"
proof -
  let ?ms = "members t"
  from ok obtain p where ne: "?ms \<noteq> []" and d: "distinct (map m_playerId ?ms)"
    and p: "manager t = Some p" "p \<in> set (map m_playerId ?ms)"
    and fl: "\<forall>m\<in>set ?ms. m_isManager m = (m_playerId m = p)"
    by (auto simp: team_ok_def)
  show ?thesis
  proof (cases "pid \<in> set (map m_playerId ?ms)")
    case True
    then obtain e where e: "find (\<lambda>m. m_playerId m = pid) ?ms = Some e"
      using find_None_playerId [of pid ?ms] by (cases "find (\<lambda>m. m_playerId m = pid) ?ms") auto
    show ?thesis
    proof (cases "p_isManager pd \<or> \<not> truthy (manager t)")
      case reset: True
      then have "joinedTeam t pid pd =
          t \<lparr> manager := Some pid,
              members := map (\<lambda>m. m \<lparr> m_isManager := (m_playerId m = pid) \<rparr>) ?ms \<rparr>"
        using e by (simp add: joinedTeam_def)
      then show ?thesis using reset_flags_ok [OF d True] by simp
    next
      case False
      then have "joinedTeam t pid pd = t" using e by (simp add: joinedTeam_def)
      then show ?thesis using ok by simp
    qed
  next
    case False
    then have n: "find (\<lambda>m. m_playerId m = pid) ?ms = None"
      by (simp only: find_None_playerId not_False_eq_True)
    let ?new = "\<lparr> m_playerId = pid, m_name = p_name pd, m_isManager = p_isManager pd \<rparr>"
    have d': "distinct (map m_playerId (?ms @ [?new]))" using d False by simp
    have in': "pid \<in> set (map m_playerId (?ms @ [?new]))" by simp
    show ?thesis
    proof (cases "p_isManager pd \<or> \<not> truthy (manager t)")
      case reset: True
      then have "joinedTeam t pid pd =
          t \<lparr> manager := Some pid,
              members := map (\<lambda>m. m \<lparr> m_isManager := (m_playerId m = pid) \<rparr>) (?ms @ [?new]) \<rparr>"
        using n ne by (simp add: joinedTeam_def)
      then show ?thesis using reset_flags_ok [OF d' in'] by simp
    next
      case keep: False
      then have "joinedTeam t pid pd = t \<lparr> members := ?ms @ [?new] \<rparr>"
        using n ne by (simp add: joinedTeam_def)
      moreover have "p \<noteq> pid" using p(2) False by auto
      ultimately show ?thesis using keep ne d False p fl
        unfolding team_ok_def by auto
    qed
  qed
qed

lemma left_team_ok:
  assumes ok: "team_ok t" and ne': "members (leftTeam t pid) \<noteq> []"
  shows "team_ok (leftTeam t pid)"
proof -
  let ?ms = "members t"
  let ?ms' = "filter (\<lambda>m. m_playerId m \<noteq> pid) ?ms"
  from ok obtain p where d: "distinct (map m_playerId ?ms)"
    and p: "manager t = Some p" "p \<in> set (map m_playerId ?ms)"
    and fl: "\<forall>m\<in>set ?ms. m_isManager m = (m_playerId m = p)"
    by (auto simp: team_ok_def)
  have d': "distinct (map m_playerId ?ms')" using d by (rule distinct_map_filter)
  from ne' obtain m0 rest where ms': "?ms' = m0 # rest"
    by (cases ?ms') (auto simp: leftTeam_def)
  have sub: "set (m0 # rest) \<subseteq> set ?ms" using ms' [symmetric] by auto
  show ?thesis
  proof (cases "p = pid")
    case True
    then have eq: "leftTeam t pid =
        t \<lparr> manager := Some (m_playerId m0), members := m0 \<lparr> m_isManager := True \<rparr> # rest \<rparr>"
      using ms' p(1) by (simp add: leftTeam_def)
    have "\<forall>m\<in>set rest. \<not> m_isManager m"
    proof
      fix m assume "m \<in> set rest"
      then have "m \<in> set ?ms'" using ms' by simp
      then have "m \<in> set ?ms" "m_playerId m \<noteq> pid" by auto
      then show "\<not> m_isManager m" using fl True by auto
    qed
    moreover have "\<forall>m\<in>set rest. m_playerId m \<noteq> m_playerId m0"
      using d' ms' by (auto simp: image_iff)
    moreover have "distinct (map m_playerId rest)" using d' ms' by simp
    ultimately show ?thesis unfolding eq team_ok_def by auto
  next
    case False
    then have eq: "leftTeam t pid = t \<lparr> members := ?ms' \<rparr>"
      using ms' p(1) by (simp add: leftTeam_def)
    have "p \<in> set (map m_playerId ?ms')" using p(2) False by auto
    then have "p \<in> set (map m_playerId (m0 # rest))" by (simp only: ms')
    moreover have "\<forall>m\<in>set (m0 # rest). m_isManager m = (m_playerId m = p)"
      using fl sub by blast
    moreover have "distinct (map m_playerId (m0 # rest))" using d' by (simp only: ms')
    ultimately show ?thesis using p(1) unfolding eq team_ok_def ms' by simp
  qed
qed

lemma addPlayer_team_ok:
  assumes "\<forall>t\<in>set (Map_values (teams s)). team_ok t"
  shows "\<forall>t\<in>set (Map_values (teams (addPlayer s pid pd))). team_ok t"
proof
  fix t assume "t \<in> set (Map_values (teams (addPlayer s pid pd)))"
  then have "t = joinedTeam (case Map_get (teams s) (p_teamName pd) of
                       None \<Rightarrow> newTeam (p_teamName pd) | Some t \<Rightarrow> t) pid pd
             \<or> t \<in> set (Map_values (teams s))"
    unfolding teams_addPlayer by (rule Map_values_Map_set)
  then show "team_ok t"
    using assms joined_fresh_ok joined_team_ok
    by (auto split: option.splits dest: Map_get_values)
qed

lemma removePlayer_team_ok:
  assumes "\<forall>t\<in>set (Map_values (teams s)). team_ok t"
  shows "\<forall>t\<in>set (Map_values (teams (removePlayer s pid))). team_ok t"
proof
  fix t assume "t \<in> set (Map_values (teams (removePlayer s pid)))"
  then show "team_ok t"
    using assms left_team_ok
    unfolding teams_removePlayer
    by (auto split: option.splits if_splits
             dest!: Map_values_Map_set Map_values_Map_delete dest: Map_get_values)
qed

lemma run_snoc: "run s (ops @ [op]) = apply_op (run s ops) op"
  by (simp add: run_def)

lemma roster_run_team_ok:
  "list_all roster_op ops \<Longrightarrow>
   \<forall>t\<in>set (Map_values (teams (run (initial_session c h now hc) ops))). team_ok t"
proof (induction ops rule: rev_induct)
  case Nil
  then show ?case by (simp add: run_def initial_session_def new_GameState_def Map_values_def)
next
  case (snoc op ops)
  then have ih: "\<forall>t\<in>set (Map_values (teams (run (initial_session c h now hc) ops))). team_ok t"
    and r: "roster_op op" by auto
  from r show ?case
    using addPlayer_team_ok [OF ih] removePlayer_team_ok [OF ih]
    by (cases op) (auto simp: run_snoc roster_op_def)
qed

text \<open>
  Claim C1. After any sequence of \<^verbatim>\<open>addPlayer\<close> and \<^verbatim>\<open>removePlayer\<close> calls on a new
  session, every team of the session that has members has exactly one member whose
  \<^verbatim>\<open>isManager\<close> flag is set, and the team's \<^verbatim>\<open>manager\<close> field is that member's id.
\<close>

theorem roster_exactly_one_manager:
  assumes "list_all roster_op ops"
    and "t \<in> set (Map_values (teams (run (initial_session c h now hc) ops)))"
    and "members t \<noteq> []"
  shows "exactly_one_manager t"
  using roster_run_team_ok [OF assms(1)] assms(2) by (auto intro: team_ok_exactly_one)

theorem roster_exactly_one_manager_witness:
  "list_all roster_op [AddPlayer ''p1'' ann, AddPlayer ''p2'' bob, RemovePlayer ''p2'']
   \<and> red_team \<in> set (Map_values (teams (run (initial_session ''123456'' ''host'' 0 (Some 10))
                        [AddPlayer ''p1'' ann, AddPlayer ''p2'' bob, RemovePlayer ''p2''])))
   \<and> members red_team \<noteq> []
   \<and> exactly_one_manager red_team"
proof -
  let ?ops = "[AddPlayer ''p1'' ann, AddPlayer ''p2'' bob, RemovePlayer ''p2'']"
  have a: "list_all roster_op ?ops" by (simp add: roster_op_def)
  have b: "red_team \<in> set (Map_values (teams (run (initial_session ''123456'' ''host'' 0 (Some 10)) ?ops)))"
    by (simp add: run_def initial_session_def new_GameState_def addPlayer_def removePlayer_def joinedTeam_def
        leftTeam_def newTeam_def Map_get_def Map_delete_def Map_values_def truthy_def Let_def)
  have c: "members red_team \<noteq> []" by simp
  from roster_exactly_one_manager [OF a b c] a b c show ?thesis by blast
qed

section \<open>Facts about numbers\<close>

lemma expo_small: "n < 2 ^ 53 \<Longrightarrow> expo n = 0"
  by (simp add: expo.simps)

lemma dbl_exact: "\<bar>x\<bar> \<le> 2 ^ 53 \<Longrightarrow> dbl x = x"
proof (cases "\<bar>x\<bar> < 2 ^ 53")
  case True
  then have "expo \<bar>x\<bar> = 0" by (rule expo_small)
  then show ?thesis by (simp add: dbl_def Let_def mult_sgn_abs)
next
  case False
  assume "\<bar>x\<bar> \<le> 2 ^ 53"
  with False have a: "\<bar>x\<bar> = 2 ^ 53" by simp
  have "expo (2 ^ 53) = 1"
    by (subst expo.simps, subst expo.simps) simp
  then have "dbl x = sgn x * 2 ^ 53" unfolding dbl_def a Let_def by simp
  with a show ?thesis by (metis mult_sgn_abs)
qed


lemma js_add_exact: "\<bar>a + b\<bar> \<le> 2 ^ 53 \<Longrightarrow> js_add a b = a + b"
  by (simp add: js_add_def dbl_exact)

lemma js_sub_exact: "\<bar>a - b\<bar> \<le> 2 ^ 53 \<Longrightarrow> js_sub a b = a - b"
  by (simp add: js_sub_def dbl_exact)

lemma parseInt_exact: "\<bar>n\<bar> \<le> 2 ^ 53 \<Longrightarrow> parseInt n = n"
  by (simp add: parseInt_def)

text \<open>The loop variable: it counts up to \<open>2 ^ 53\<close> and stays there.\<close>

lemma js_inc_below: "0 \<le> g \<Longrightarrow> g < 2 ^ 53 \<Longrightarrow> js_add g 1 = g + 1"
  by (simp add: js_add_exact)


section \<open>The flattened round index\<close>

lemma sum_rounds_nonneg: "\<forall>e\<in>set gs. 0 \<le> rounds_of e \<Longrightarrow> 0 \<le> sum_list (map rounds_of gs)"
  by (induction gs) auto

lemma roundIndex_loop_eq:
  assumes "1 \<le> g" and "gameNum \<le> 2 ^ 53" and "\<forall>e\<in>set gs. 0 \<le> rounds_of e"
    and "0 \<le> acc"
    and "acc + sum_list (map rounds_of (drop (nat (g - 1)) (take (nat (gameNum - 1)) gs))) \<le> 2 ^ 53"
  shows "roundIndex_loop (Some gs) gameNum g acc =
           Some (Returns (acc + sum_list (map rounds_of
                   (drop (nat (g - 1)) (take (nat (gameNum - 1)) gs)))))"
  using assms(1,4,5)
proof (induction "nat (gameNum - g)" arbitrary: g acc)
  case 0
  then have "\<not> g < gameNum" by simp
  moreover from this have "nat (gameNum - 1) \<le> nat (g - 1)" by simp
  then have "drop (nat (g - 1)) (take (nat (gameNum - 1)) gs) = []" by simp
  ultimately show ?case by (subst roundIndex_loop.simps) simp
next
  case (Suc n)
  let ?k = "nat (g - 1)"
  let ?n = "nat (gameNum - 1)"
  from Suc.hyps(2) have lt: "g < gameNum" by simp
  with Suc.prems(1) assms(2) have g: "0 \<le> g" "g < 2 ^ 53" by simp_all
  have inc: "js_add g 1 = g + 1" using g by (rule js_inc_below)
  have dec: "js_sub g 1 = g - 1" using g by (simp add: js_sub_exact)
  have k: "nat g = Suc ?k" using Suc.prems(1) by simp
  have ltk: "?k < ?n" using lt Suc.prems(1) by simp
  define acc' where "acc' = (case js_index gs (js_sub g 1) of
                               Some (Some gd) \<Rightarrow> js_add acc (parseInt (snd gd))
                             | _ \<Rightarrow> acc)"
  have step: "roundIndex_loop (Some gs) gameNum g acc = roundIndex_loop (Some gs) gameNum (g + 1) acc'"
    using lt by (subst roundIndex_loop.simps) (simp add: inc acc'_def)
  have acc': "acc' + sum_list (map rounds_of (drop (Suc ?k) (take ?n gs)))
                = acc + sum_list (map rounds_of (drop ?k (take ?n gs)))
              \<and> 0 \<le> acc'"
  proof (cases "?k < length gs")
    case True
    then have d: "drop ?k (take ?n gs) = gs ! ?k # drop (Suc ?k) (take ?n gs)"
      using ltk by (simp add: Cons_nth_drop_Suc [symmetric])
    have idx: "js_index gs (js_sub g 1) = Some (gs ! ?k)"
      using True Suc.prems(1) by (simp add: dec js_index_def)
    have nn: "0 \<le> rounds_of (gs ! ?k)" using assms(3) True by simp
    have rest: "0 \<le> sum_list (map rounds_of (drop (Suc ?k) (take ?n gs)))"
      using assms(3) by (intro sum_rounds_nonneg) (auto dest: in_set_dropD in_set_takeD)
    from Suc.prems(3) d nn rest Suc.prems(2)
    have b: "\<bar>rounds_of (gs ! ?k)\<bar> \<le> 2 ^ 53" "\<bar>acc + rounds_of (gs ! ?k)\<bar> \<le> 2 ^ 53"
      by simp_all
    have "acc' = acc + rounds_of (gs ! ?k)"
    proof (cases "gs ! ?k")
      case None
      then show ?thesis by (simp add: acc'_def idx rounds_of_def)
    next
      case (Some gd)
      with b have "\<bar>snd gd\<bar> \<le> 2 ^ 53" "\<bar>acc + snd gd\<bar> \<le> 2 ^ 53" by (simp_all add: rounds_of_def)
      then show ?thesis using Some
        by (simp add: acc'_def idx rounds_of_def parseInt_exact js_add_exact)
    qed
    then show ?thesis using d nn Suc.prems(2) by simp
  next
    case False
    then have "drop ?k (take ?n gs) = []" "drop (Suc ?k) (take ?n gs) = []" by simp_all
    moreover have "js_index gs (js_sub g 1) = None" using False by (simp add: dec js_index_def)
    ultimately show ?thesis using Suc.prems(2) by (simp add: acc'_def)
  qed
  have "n = nat (gameNum - (g + 1))" using Suc.hyps(2) by simp
  moreover have "1 \<le> g + 1" using Suc.prems(1) by simp
  moreover have "0 \<le> acc'" using acc' by simp
  moreover have "acc' + sum_list (map rounds_of (drop (nat (g + 1 - 1)) (take ?n gs))) \<le> 2 ^ 53"
    using acc' Suc.prems(3) by (simp add: k)
  ultimately have "roundIndex_loop (Some gs) gameNum (g + 1) acc' =
      Some (Returns (acc' + sum_list (map rounds_of (drop (nat (g + 1 - 1)) (take ?n gs)))))"
    by (rule Suc.hyps(1))
  then show ?case using acc' by (simp add: step k)
qed

text \<open>
  Within the range where the code's arithmetic is exact, the loop returns the
  specification's index.
\<close>

lemma roundIndex_of_flat:
  assumes "gameNum \<le> 2 ^ 53" and "\<forall>e\<in>set gs. 0 \<le> rounds_of e" and "1 \<le> round"
    and "flat_index gs gameNum round \<le> 2 ^ 53"
  shows "roundIndex_of (Some gs) gameNum round = Some (Returns (flat_index gs gameNum round))"
proof -
  let ?sum = "sum_list (map rounds_of (take (nat (gameNum - 1)) gs))"
  have nn: "0 \<le> ?sum"
    using assms(2) by (intro sum_rounds_nonneg) (auto dest: in_set_takeD)
  from assms(3,4) nn have b: "?sum \<le> 2 ^ 53" "\<bar>round - 1\<bar> \<le> 2 ^ 53" "\<bar>?sum + (round - 1)\<bar> \<le> 2 ^ 53"
    by (simp_all add: flat_index_def)
  have "roundIndex_loop (Some gs) gameNum 1 0 = Some (Returns ?sum)"
    using roundIndex_loop_eq [of 1 gameNum gs 0] assms(1,2) b(1) by simp
  then show ?thesis using b
    by (simp add: roundIndex_of_def flat_index_def js_sub_exact js_add_exact)
qed




section \<open>Sums of scores\<close>

lemma foldl_js_add:
  "\<bar>acc\<bar> + sum_list (map (\<lambda>s. \<bar>f s\<bar>) rs) \<le> 2 ^ 53 \<Longrightarrow>
   foldl (\<lambda>sum s. js_add sum (f s)) acc rs = acc + sum_list (map f rs)"
proof (induction rs arbitrary: acc)
  case Nil
  then show ?case by simp
next
  case (Cons x rs)
  have nn: "0 \<le> sum_list (map (\<lambda>s. \<bar>f s\<bar>) rs)" by (rule sum_list_nonneg) auto
  with Cons.prems have "\<bar>acc + f x\<bar> \<le> 2 ^ 53" by simp
  then have e: "js_add acc (f x) = acc + f x" by (rule js_add_exact)
  have "\<bar>acc + f x\<bar> + sum_list (map (\<lambda>s. \<bar>f s\<bar>) rs) \<le> 2 ^ 53" using Cons.prems by simp
  from Cons.IH [OF this] show ?case by (simp add: e)
qed

lemma small_abs_sum:
  fixes xs :: "int option list"
  assumes "list_all small_slot xs"
  shows "sum_list (map (\<lambda>s. \<bar>case s of None \<Rightarrow> 0 | Some v \<Rightarrow> v\<bar>) xs)
           \<le> int (length xs) * 2 ^ 21"
  using assms
proof (induction xs)
  case Nil
  then show ?case by simp
next
  case (Cons x xs)
  then show ?case by (cases x) (simp_all add: small_slot_def algebra_simps)
qed

lemma reduce_scores_sum:
  assumes "small_scores (Some rs)"
  shows "reduce_scores rs = sum_defined (Some rs)"
proof -
  let ?f = "\<lambda>s :: int option. case s of None \<Rightarrow> 0 | Some v \<Rightarrow> v"
  from assms have len: "int (length rs) < 2 ^ 32"
    and sm: "list_all small_slot rs"
    by (simp_all add: small_scores_def)
  from len have "int (length rs) * 2 ^ 21 \<le> 2 ^ 32 * 2 ^ 21" by (intro mult_right_mono) simp_all
  with small_abs_sum [OF sm] have "\<bar>0\<bar> + sum_list (map (\<lambda>s. \<bar>?f s\<bar>) rs) \<le> 2 ^ 53" by simp
  from foldl_js_add [of 0 ?f rs, OF this] show ?thesis
    by (simp add: reduce_scores_def sum_defined_def)
qed

lemma array_set_small:
  assumes "small_scores (Some xs)" and "\<bar>v\<bar> \<le> 2 ^ 21"
  shows "small_scores (Some (array_set xs i v))"
proof -
  from assms(1) have len: "int (length xs) < 2 ^ 32"
    and sm: "list_all small_slot xs"
    by (simp_all add: small_scores_def)
  show ?thesis
  proof (cases "i < 0 \<or> 2 ^ 32 - 1 \<le> i")
    case True
    then show ?thesis using assms(1) by (auto simp: array_set_def)
  next
    case range: False
    show ?thesis
    proof (cases "nat i < length xs")
      case True
      then have "array_set xs i v = xs[nat i := Some v]" using range by (simp add: array_set_def)
      moreover have "list_all small_slot (xs[nat i := Some v])"
        using sm assms(2)
        by (auto simp: list_all_iff small_slot_def dest!: set_update_subset_insert [THEN subsetD])
      ultimately show ?thesis using len by (simp add: small_scores_def)
    next
      case False
      then have eq: "array_set xs i v = xs @ replicate (nat i - length xs) None @ [Some v]"
        using range by (simp add: array_set_def)
      have "int (length (xs @ replicate (nat i - length xs) None @ [Some v])) < 2 ^ 32"
        using False range by simp
      moreover have "list_all small_slot (xs @ replicate (nat i - length xs) None @ [Some v])"
        using sm assms(2) by (auto simp: list_all_iff small_slot_def)
      ultimately show ?thesis unfolding eq by (simp add: small_scores_def)
    qed
  qed
qed

lemma scoredTeam_scores_ok:
  assumes "small_scores (roundScores t)" and "\<bar>v\<bar> \<le> 2 ^ 21"
  shows "scores_ok (scoredTeam t i v)"
proof -
  let ?rs0 = "case roundScores t of None \<Rightarrow> [] | Some rs \<Rightarrow> rs"
  have "small_scores (Some ?rs0)"
    using assms(1) by (cases "roundScores t") (simp_all add: small_scores_def)
  then have "small_scores (Some (array_set ?rs0 i v))" using assms(2) by (rule array_set_small)
  then show ?thesis
    by (simp add: scoredTeam_def scores_ok_def total_ok_def Let_def reduce_scores_sum)
qed


section \<open>Score submission\<close>

lemmas session_defs =
  run_def initial_session_def new_GameState_def addPlayer_def removePlayer_def joinedTeam_def leftTeam_def
  newTeam_def startGame_def Map_get_def Map_has_def Map_delete_def Map_values_def
  truthy_def Let_def

lemma red_game_teams: "teams red_game = [(''Red'', red_team)]"
  by (simp add: red_game_def session_defs)

lemma red_game_players: "players red_game = [(''p1'', ann)]"
  by (simp add: red_game_def session_defs)



lemma red_server_games: "srv_games red_server = [(''123456'', red_game)]"
  by (simp add: red_server_def)


lemma handleSubmitScore_session:
  assumes "Map_get (srv_games srv) (sm_gameCode msg) = Some game"
    and "handleSubmitScore isOpen srv sender msg = Some (Returns r)"
  shows "Map_get (srv_games (fst r)) (sm_gameCode msg)
           = Some (submitScore game (sm_playerId msg) (sm_teamName msg) (sm_score msg)
                     (sm_game msg) (sm_round msg))"
  using assms
  by (auto simp: handleSubmitScore_def submitScore_def Let_def Map_get_Map_set
      split: option.splits outcome.splits if_splits)

text \<open>
  Claim C3. When the named team exists and the claimed player id is not the team's
  manager, or is not a player of the session at all, \<^verbatim>\<open>handleSubmitScore\<close> sends the
  sender the error ``Only team managers can submit scores'' and nothing else, and leaves
  the whole server state, so the team's \<^verbatim>\<open>roundScores\<close> and \<^verbatim>\<open>totalScore\<close>, as it was.
\<close>

theorem submitScore_not_manager:
  assumes "Map_get (srv_games srv) (sm_gameCode msg) = Some game"
    and "Map_get (teams game) (sm_teamName msg) = Some t"
    and "manager t \<noteq> Some (sm_playerId msg) \<or> Map_get (players game) (sm_playerId msg) = None"
  shows "handleSubmitScore isOpen srv sender msg =
           Some (Returns (srv, [(sender, ERROR ''Only team managers can submit scores'')]))"
  using assms by (auto simp: handleSubmitScore_def)

theorem submitScore_not_manager_witness:
  "Map_get (srv_games red_server) ''123456'' = Some red_game
   \<and> Map_get (teams red_game) ''Red'' = Some red_team
   \<and> Map_get (players red_game) ''p2'' = None
   \<and> handleSubmitScore allOpen red_server 5
        \<lparr> sm_gameCode = ''123456'', sm_playerId = ''p2'', sm_teamName = ''Red'',
          sm_score = 50, sm_game = 1, sm_round = 1 \<rparr> =
        Some (Returns (red_server, [(5, ERROR ''Only team managers can submit scores'')]))"
proof -
  let ?msg = "\<lparr> sm_gameCode = ''123456'', sm_playerId = ''p2'', sm_teamName = ''Red'',
          sm_score = 50, sm_game = 1, sm_round = 1 \<rparr>"
  have a: "Map_get (srv_games red_server) (sm_gameCode ?msg) = Some red_game"
    by (simp add: red_server_games Map_get_def)
  have b: "Map_get (teams red_game) (sm_teamName ?msg) = Some red_team"
    by (simp add: red_game_teams Map_get_def)
  have c: "manager red_team \<noteq> Some (sm_playerId ?msg)
           \<or> Map_get (players red_game) (sm_playerId ?msg) = None"
    by simp
  have d: "Map_get (players red_game) ''p2'' = None"
    by (simp add: red_game_players Map_get_def)
  from submitScore_not_manager [OF a b c, of allOpen 5] a b d show ?thesis by simp
qed

text \<open>
  Claim C7, as amended. When the named team is absent from the session,
  \<^verbatim>\<open>handleSubmitScore\<close> returns without sending anything, and the state is unchanged.
\<close>

theorem submitScore_absent_team_silent:
  assumes "Map_get (srv_games srv) (sm_gameCode msg) = Some game"
    and "Map_get (teams game) (sm_teamName msg) = None"
  shows "handleSubmitScore isOpen srv sender msg = Some (Returns (srv, []))"
  using assms by (simp add: handleSubmitScore_def)

text \<open>
  Claim C7 as stated fails: a submission naming the absent team Blue sends no message at
  all, so no error event reaches the sender.
\<close>

theorem submitScore_absent_team_no_error:
  "Map_get (srv_games red_server) ''123456'' = Some red_game
   \<and> Map_get (teams red_game) ''Blue'' = None
   \<and> handleSubmitScore allOpen red_server 5
        \<lparr> sm_gameCode = ''123456'', sm_playerId = ''p1'', sm_teamName = ''Blue'',
          sm_score = 50, sm_game = 1, sm_round = 1 \<rparr> = Some (Returns (red_server, []))"
  by (simp add: handleSubmitScore_def red_server_games red_game_teams Map_get_def)

theorem submitScore_absent_team_silent_witness:
  "Map_get (srv_games red_server) ''123456'' = Some red_game
   \<and> Map_get (teams red_game) ''Blue'' = None
   \<and> handleSubmitScore allOpen red_server 5
        \<lparr> sm_gameCode = ''123456'', sm_playerId = ''p1'', sm_teamName = ''Blue'',
          sm_score = 50, sm_game = 1, sm_round = 1 \<rparr> = Some (Returns (red_server, []))"
proof -
  let ?msg = "\<lparr> sm_gameCode = ''123456'', sm_playerId = ''p1'', sm_teamName = ''Blue'',
          sm_score = 50, sm_game = 1, sm_round = 1 \<rparr>"
  have a: "Map_get (srv_games red_server) (sm_gameCode ?msg) = Some red_game"
    by (simp add: red_server_games Map_get_def)
  have b: "Map_get (teams red_game) (sm_teamName ?msg) = None"
    by (simp add: red_game_teams Map_get_def)
  from submitScore_absent_team_silent [OF a b, of allOpen 5] a b show ?thesis by simp
qed



section \<open>Rejoining a team\<close>

lemma joinedTeam_existing:
  assumes "pid \<in> set (map m_playerId (members t))"
  shows "map (\<lambda>m. (m_playerId m, m_name m)) (members (joinedTeam t pid pd))
           = map (\<lambda>m. (m_playerId m, m_name m)) (members t)
         \<and> t_name (joinedTeam t pid pd) = t_name t
         \<and> totalScore (joinedTeam t pid pd) = totalScore t
         \<and> roundScores (joinedTeam t pid pd) = roundScores t"
proof -
  from assms obtain e where "find (\<lambda>m. m_playerId m = pid) (members t) = Some e"
    using find_None_playerId [of pid "members t"]
    by (cases "find (\<lambda>m. m_playerId m = pid) (members t)") auto
  then show ?thesis by (simp add: joinedTeam_def comp_def)
qed

text \<open>
  Claim C10. When \<^verbatim>\<open>addPlayer\<close> is called with a player id that is already a member of
  the named team, the ids and names of the team's members are what they were, in the
  same order, whatever display name the call carries: only \<^verbatim>\<open>isManager\<close> flags (and the
  \<^verbatim>\<open>manager\<close> field) can change. The team's name and scores are unchanged, and the
  players map holds the new player data.
\<close>

theorem addPlayer_rejoin_members:
  assumes "Map_get (teams s) (p_teamName pd) = Some t"
    and "pid \<in> set (map m_playerId (members t))"
  shows "\<exists>t'. Map_get (teams (addPlayer s pid pd)) (p_teamName pd) = Some t'
           \<and> map (\<lambda>m. (m_playerId m, m_name m)) (members t')
               = map (\<lambda>m. (m_playerId m, m_name m)) (members t)
           \<and> t_name t' = t_name t \<and> totalScore t' = totalScore t
           \<and> roundScores t' = roundScores t
           \<and> Map_get (players (addPlayer s pid pd)) pid = Some pd"
  using assms joinedTeam_existing [OF assms(2), of pd]
  by (simp add: addPlayer_def Let_def Map_get_Map_set)

theorem addPlayer_rejoin_members_witness:
  "Map_get (teams red_game) ''Red'' = Some red_team
   \<and> ''p1'' \<in> set (map m_playerId (members red_team))
   \<and> Map_get (teams (addPlayer red_game ''p1'' (ann \<lparr> p_name := ''Annie'' \<rparr>))) ''Red''
       = Some red_team
   \<and> Map_get (players (addPlayer red_game ''p1'' (ann \<lparr> p_name := ''Annie'' \<rparr>))) ''p1''
       = Some (ann \<lparr> p_name := ''Annie'' \<rparr>)"
proof -
  let ?pd = "ann \<lparr> p_name := ''Annie'' \<rparr>"
  have a: "Map_get (teams red_game) (p_teamName ?pd) = Some red_team"
    by (simp add: red_game_teams Map_get_def)
  have b: "''p1'' \<in> set (map m_playerId (members red_team))" by simp
  note th = addPlayer_rejoin_members [OF a b]
  have c: "Map_get (teams (addPlayer red_game ''p1'' ?pd)) ''Red'' = Some red_team"
    by (simp add: addPlayer_def red_game_teams Map_get_def joinedTeam_def truthy_def Let_def)
  from th a b c show ?thesis by auto
qed

section \<open>Where the index computation returns\<close>





section \<open>Total scores\<close>

lemma newTeam_scores_ok: "scores_ok (newTeam tn)"
  by (simp add: newTeam_def scores_ok_def total_ok_def sum_defined_def small_scores_def)

lemma joinedTeam_scores:
  "totalScore (joinedTeam t pid pd) = totalScore t"
  "roundScores (joinedTeam t pid pd) = roundScores t"
  "t_name (joinedTeam t pid pd) = t_name t"
  by (simp_all add: joinedTeam_def Let_def split: option.splits)

lemma leftTeam_scores:
  "totalScore (leftTeam t pid) = totalScore t"
  "roundScores (leftTeam t pid) = roundScores t"
  "t_name (leftTeam t pid) = t_name t"
  by (simp_all add: leftTeam_def Let_def split: list.splits)

lemma joinedTeam_scores_ok: "scores_ok t \<Longrightarrow> scores_ok (joinedTeam t pid pd)"
  by (simp add: scores_ok_def total_ok_def joinedTeam_scores)

lemma leftTeam_scores_ok: "scores_ok t \<Longrightarrow> scores_ok (leftTeam t pid)"
  by (simp add: scores_ok_def total_ok_def leftTeam_scores)

lemma teams_unchanged [simp]:
  "teams (snd (handleBuzz s pid now)) = teams s"
  "teams (startGame s gs cg cr) = teams s"
  "teams (roundUpdate s cg cr) = teams s"
  "teams (clearAllBuzzes s) = teams s"
  "teams (clearBuzzFor s pid) = teams s"
  "teams (popLastBuzz s) = teams s"
  "teams (enableScoring s) = teams s"
  "teams (revealFinalScores s) = teams s"
  "teams (playerDisconnected s pid) = teams s"
  by (simp_all add: handleBuzz_def startGame_def roundUpdate_def clearAllBuzzes_def
      clearBuzzFor_def popLastBuzz_def enableScoring_def revealFinalScores_def
      playerDisconnected_def split: option.splits)

lemma addPlayer_scores_ok:
  assumes "\<forall>t\<in>set (Map_values (teams s)). scores_ok t"
  shows "\<forall>t\<in>set (Map_values (teams (addPlayer s pid pd))). scores_ok t"
  using assms newTeam_scores_ok joinedTeam_scores_ok
  unfolding teams_addPlayer
  by (auto split: option.splits dest!: Map_values_Map_set dest: Map_get_values)

lemma removePlayer_scores_ok:
  assumes "\<forall>t\<in>set (Map_values (teams s)). scores_ok t"
  shows "\<forall>t\<in>set (Map_values (teams (removePlayer s pid))). scores_ok t"
  using assms leftTeam_scores_ok
  unfolding teams_removePlayer
  by (auto split: option.splits if_splits
           dest!: Map_values_Map_set Map_values_Map_delete dest: Map_get_values)

lemma teams_submitScore:
  "teams (submitScore s pid tn v g r) = teams s
   \<or> (\<exists>t i. Map_get (teams s) tn = Some t
            \<and> teams (submitScore s pid tn v g r) = Map_set (teams s) tn (scoredTeam t i v))"
  by (auto simp: submitScore_def split: option.splits outcome.splits)

lemma submitScore_scores_ok:
  assumes "\<forall>t\<in>set (Map_values (teams s)). scores_ok t" and "\<bar>v\<bar> \<le> 2 ^ 21"
  shows "\<forall>t\<in>set (Map_values (teams (submitScore s pid tn v g r))). scores_ok t"
proof
  fix t' assume t': "t' \<in> set (Map_values (teams (submitScore s pid tn v g r)))"
  from teams_submitScore [of s pid tn v g r] show "scores_ok t'"
  proof
    assume "teams (submitScore s pid tn v g r) = teams s"
    with t' assms(1) show ?thesis by simp
  next
    assume "\<exists>t i. Map_get (teams s) tn = Some t
            \<and> teams (submitScore s pid tn v g r) = Map_set (teams s) tn (scoredTeam t i v)"
    then obtain t i where t: "Map_get (teams s) tn = Some t"
      and eq: "teams (submitScore s pid tn v g r) = Map_set (teams s) tn (scoredTeam t i v)"
      by blast
    from t assms(1) have "small_scores (roundScores t)"
      by (auto simp: scores_ok_def dest: Map_get_values)
    then have "scores_ok (scoredTeam t i v)" using assms(2) by (rule scoredTeam_scores_ok)
    with t' assms(1) show ?thesis unfolding eq by (auto dest!: Map_values_Map_set)
  qed
qed

lemma setManager_scores_ok:
  assumes "\<forall>t\<in>set (Map_values (teams s)). scores_ok t"
  shows "\<forall>t\<in>set (Map_values (teams (setManager s tn p))). scores_ok t"
  using assms
  by (auto simp: setManager_def scores_ok_def total_ok_def split: option.splits
           dest!: Map_values_Map_set dest: Map_get_values)

lemma setScores_scores_ok:
  assumes "\<forall>t\<in>set (Map_values (teams s)). scores_ok t"
    and "newTotal = sum_defined scores" and "small_scores scores"
  shows "\<forall>t\<in>set (Map_values (teams (setScores s tn scores newTotal))). scores_ok t"
  using assms
  by (auto simp: setScores_def scores_ok_def total_ok_def split: option.splits
           dest!: Map_values_Map_set)

lemma apply_op_scores_ok:
  assumes "\<forall>t\<in>set (Map_values (teams s)). scores_ok t" and "consistent_op op"
  shows "\<forall>t\<in>set (Map_values (teams (apply_op s op))). scores_ok t"
proof (cases op)
  case (AddPlayer pid pd)
  then show ?thesis using addPlayer_scores_ok [OF assms(1)] by simp
next
  case (RemovePlayer pid)
  then show ?thesis using removePlayer_scores_ok [OF assms(1)] by simp
next
  case (SubmitScore pid tn v g r)
  then show ?thesis using submitScore_scores_ok [OF assms(1)] assms(2)
    by (simp add: consistent_op_def)
next
  case (ManagerChanged tn p)
  then show ?thesis using setManager_scores_ok [OF assms(1)] by simp
next
  case (ScoreUpdated tn scores newTotal)
  then show ?thesis using setScores_scores_ok [OF assms(1)] assms(2)
    by (auto simp: consistent_op_def)
qed (use assms(1) in simp_all)

text \<open>
  Claim C6, as amended. In every state reached from a new session by operations in which
  every submitted score and every score set by the host is at most \<open>2 ^ 21\<close> in magnitude
  (so that the sums the code computes are exact), and in which each \<^verbatim>\<open>SCORE_UPDATED\<close>
  carries a total equal to the sum of the defined entries of the scores it carries, every
  team's \<^verbatim>\<open>totalScore\<close> is the sum of the defined entries of its \<^verbatim>\<open>roundScores\<close>.
\<close>

theorem totalScore_is_sum:
  assumes "list_all consistent_op ops"
    and "t \<in> set (Map_values (teams (run (initial_session c h now hc) ops)))"
  shows "totalScore t = sum_defined (roundScores t)"
proof -
  have "\<forall>t\<in>set (Map_values (teams (run (initial_session c h now hc) ops))). scores_ok t"
    using assms(1)
  proof (induction ops rule: rev_induct)
    case Nil
    then show ?case by (simp add: run_def initial_session_def new_GameState_def Map_values_def)
  next
    case (snoc op ops)
    then have "\<forall>t\<in>set (Map_values (teams (run (initial_session c h now hc) ops))). scores_ok t"
      and "consistent_op op" by simp_all
    then show ?case unfolding run_snoc by (rule apply_op_scores_ok)
  qed
  with assms(2) show ?thesis by (simp add: scores_ok_def total_ok_def)
qed

theorem totalScore_is_sum_witness:
  "list_all consistent_op
     [AddPlayer ''p1'' ann, GameStarted (Some [Some (''A'', 3)]) 1 1,
      SubmitScore ''p1'' ''Red'' 50 1 1, SubmitScore ''p1'' ''Red'' 20 1 2,
      ScoreUpdated ''Red'' (Some [Some 50, Some 20, None, Some 5]) 75]
   \<and> red_team \<lparr> totalScore := 75, roundScores := Some [Some 50, Some 20, None, Some 5] \<rparr>
       \<in> set (Map_values (teams (run (initial_session ''123456'' ''host'' 0 (Some 10))
            [AddPlayer ''p1'' ann, GameStarted (Some [Some (''A'', 3)]) 1 1,
             SubmitScore ''p1'' ''Red'' 50 1 1, SubmitScore ''p1'' ''Red'' 20 1 2,
             ScoreUpdated ''Red'' (Some [Some 50, Some 20, None, Some 5]) 75])))
   \<and> red_team \<lparr> totalScore := 70, roundScores := Some [Some 50, Some 20] \<rparr>
       \<in> set (Map_values (teams (run (initial_session ''123456'' ''host'' 0 (Some 10))
            [AddPlayer ''p1'' ann, GameStarted (Some [Some (''A'', 3)]) 1 1,
             SubmitScore ''p1'' ''Red'' 50 1 1, SubmitScore ''p1'' ''Red'' 20 1 2])))
   \<and> sum_defined (Some [Some 50, Some 20, None, Some 5]) = 75
   \<and> sum_defined (Some [Some 50, Some 20]) = 70"
proof -
  let ?sub = "[AddPlayer ''p1'' ann, GameStarted (Some [Some (''A'', 3)]) 1 1,
             SubmitScore ''p1'' ''Red'' 50 1 1, SubmitScore ''p1'' ''Red'' 20 1 2]"
  let ?ops = "?sub @ [ScoreUpdated ''Red'' (Some [Some 50, Some 20, None, Some 5]) 75]"
  let ?init = "initial_session ''123456'' ''host'' 0 (Some 10)"
  have nn: "\<forall>e\<in>set [Some (''A'', 3 :: int)]. 0 \<le> rounds_of e" by (simp add: rounds_of_def)
  have i1: "roundIndex_of (Some [Some (''A'', 3)]) 1 1 = Some (Returns 0)"
    using roundIndex_of_flat [of 1 "[Some (''A'', 3)]" 1] nn by (simp add: flat_index_def)
  have i2: "roundIndex_of (Some [Some (''A'', 3)]) 1 2 = Some (Returns 1)"
    using roundIndex_of_flat [of 1 "[Some (''A'', 3)]" 2] nn by (simp add: flat_index_def)
  have a: "list_all consistent_op ?ops"
    by (simp add: consistent_op_def sum_defined_def small_scores_def small_slot_def)
  have a': "list_all consistent_op ?sub" by (simp add: consistent_op_def)
  have b': "red_team \<lparr> totalScore := 70, roundScores := Some [Some 50, Some 20] \<rparr>
       \<in> set (Map_values (teams (run ?init ?sub)))"
    by (simp add: session_defs submitScore_def i1 i2 scoredTeam_def array_set_def
        reduce_scores_def js_add_exact)
  have b: "red_team \<lparr> totalScore := 75, roundScores := Some [Some 50, Some 20, None, Some 5] \<rparr>
       \<in> set (Map_values (teams (run ?init ?ops)))"
    by (simp add: session_defs submitScore_def i1 i2 scoredTeam_def array_set_def
        reduce_scores_def js_add_exact setScores_def)
  from totalScore_is_sum [OF a b] totalScore_is_sum [OF a' b'] a b b' show ?thesis by simp
qed

text \<open>
  Claim C6 as stated fails: \<^verbatim>\<open>SCORE_UPDATED\<close> stores the scores and the total it is given,
  here the scores [10] with the total 99.
\<close>

theorem setScores_breaks_total:
  "Map_get (teams (run (initial_session ''123456'' ''host'' 0 (Some 10))
        [AddPlayer ''p1'' ann, ScoreUpdated ''Red'' (Some [Some 10]) 99])) ''Red''
     = Some (red_team \<lparr> totalScore := 99, roundScores := Some [Some 10] \<rparr>)
   \<and> totalScore (red_team \<lparr> totalScore := 99, roundScores := Some [Some 10] \<rparr>) = 99
   \<and> sum_defined (roundScores (red_team \<lparr> totalScore := 99, roundScores := Some [Some 10] \<rparr>)) = 10
   \<and> \<not> total_ok (red_team \<lparr> totalScore := 99, roundScores := Some [Some 10] \<rparr>)"
  by (simp add: session_defs setScores_def sum_defined_def total_ok_def)

section \<open>Saving and restoring a session\<close>

lemma keys_Map_set:
  "map fst (Map_set m k v) = (if k \<in> set (map fst m) then map fst m else map fst m @ [k])"
  by (induction m) auto

lemma distinct_Map_set: "distinct (map fst m) \<Longrightarrow> distinct (map fst (Map_set m k v))"
  by (simp add: keys_Map_set)

lemma distinct_Map_delete: "distinct (map fst m) \<Longrightarrow> distinct (map fst (Map_delete m k))"
  by (simp add: Map_delete_def distinct_map_filter)

lemma set_Map_set: "e \<in> set (Map_set m k v) \<Longrightarrow> e = (k, v) \<or> e \<in> set m"
  by (induction m) (auto split: if_splits)

lemma set_Map_delete: "e \<in> set (Map_delete m k) \<Longrightarrow> e \<in> set m"
  by (simp add: Map_delete_def)

lemma Map_get_entry: "Map_get m k = Some v \<Longrightarrow> (k, v) \<in> set m"
  by (simp add: Map_get_def map_of_SomeD)

lemma Map_set_fresh: "k \<notin> set (map fst m) \<Longrightarrow> Map_set m k v = m @ [(k, v)]"
  by (induction m) auto

lemma foldl_Map_set_distinct:
  "distinct (map fst (m @ xs)) \<Longrightarrow>
   foldl (\<lambda>m e. Map_set m (fst e) (snd e)) m xs = m @ xs"
proof (induction xs arbitrary: m)
  case Nil
  then show ?case by simp
next
  case (Cons e xs)
  from Cons.prems have "fst e \<notin> set (map fst m)" by auto
  then have "Map_set m (fst e) (snd e) = m @ [e]" by (simp add: Map_set_fresh)
  moreover have "distinct (map fst ((m @ [e]) @ xs))" using Cons.prems by simp
  ultimately show ?case using Cons.IH [of "m @ [e]"] by simp
qed

lemma Map_new_distinct: "distinct (map fst xs) \<Longrightarrow> Map_new xs = xs"
  using foldl_Map_set_distinct [of "[]" xs] by (simp add: Map_new_def)

lemma named_entries:
  "\<forall>e\<in>set m. t_name (snd e) = fst e \<Longrightarrow> map (\<lambda>t. (t_name t, t)) (Map_values m) = m"
  by (induction m) (auto simp: Map_values_def)

lemma keyed_teams_Map_set:
  "keyed_teams m \<Longrightarrow> t_name t = k \<Longrightarrow> keyed_teams (Map_set m k t)"
  by (auto simp: keyed_teams_def distinct_Map_set dest!: set_Map_set)

lemma keyed_teams_Map_delete: "keyed_teams m \<Longrightarrow> keyed_teams (Map_delete m k)"
  by (auto simp: keyed_teams_def distinct_Map_delete dest!: set_Map_delete)

lemma keyed_teams_get: "keyed_teams m \<Longrightarrow> Map_get m k = Some t \<Longrightarrow> t_name t = k"
  by (auto simp: keyed_teams_def dest!: Map_get_entry)

lemma keyed_iff: "keyed s \<longleftrightarrow> keyed_teams (teams s) \<and> distinct (map fst (players s))"
  by (auto simp: keyed_def keyed_teams_def)

lemma players_unchanged [simp]:
  "players (snd (handleBuzz s pid now)) = players s"
  "players (startGame s gs cg cr) = players s"
  "players (roundUpdate s cg cr) = players s"
  "players (clearAllBuzzes s) = players s"
  "players (clearBuzzFor s pid) = players s"
  "players (popLastBuzz s) = players s"
  "players (enableScoring s) = players s"
  "players (revealFinalScores s) = players s"
  "players (playerDisconnected s pid) = players s"
  "players (submitScore s pid tn v g r) = players s"
  "players (setManager s tn p) = players s"
  "players (setScores s tn scores newTotal) = players s"
  "players (addPlayer s pid pd) = Map_set (players s) pid pd"
  "players (removePlayer s pid) = Map_delete (players s) pid"
  by (simp_all add: handleBuzz_def startGame_def roundUpdate_def clearAllBuzzes_def
      clearBuzzFor_def popLastBuzz_def enableScoring_def revealFinalScores_def
      playerDisconnected_def submitScore_def setManager_def setScores_def addPlayer_def
      removePlayer_def Let_def split: option.splits outcome.splits)

lemma addPlayer_keyed_teams: "keyed_teams (teams s) \<Longrightarrow> keyed_teams (teams (addPlayer s pid pd))"
  unfolding teams_addPlayer
  by (rule keyed_teams_Map_set)
     (auto simp: joinedTeam_scores newTeam_def split: option.splits dest: keyed_teams_get)

lemma removePlayer_keyed_teams:
  "keyed_teams (teams s) \<Longrightarrow> keyed_teams (teams (removePlayer s pid))"
  unfolding teams_removePlayer
  by (auto simp: leftTeam_scores split: option.splits
      intro!: keyed_teams_Map_set keyed_teams_Map_delete dest: keyed_teams_get)

lemma submitScore_keyed_teams:
  assumes "keyed_teams (teams s)"
  shows "keyed_teams (teams (submitScore s pid tn v g r))"
  using teams_submitScore [of s pid tn v g r]
proof
  assume "teams (submitScore s pid tn v g r) = teams s"
  with assms show ?thesis by simp
next
  assume "\<exists>t i. Map_get (teams s) tn = Some t
            \<and> teams (submitScore s pid tn v g r) = Map_set (teams s) tn (scoredTeam t i v)"
  then obtain t i where t: "Map_get (teams s) tn = Some t"
    and eq: "teams (submitScore s pid tn v g r) = Map_set (teams s) tn (scoredTeam t i v)"
    by blast
  from assms t have "t_name t = tn" by (rule keyed_teams_get)
  then have "t_name (scoredTeam t i v) = tn" by (simp add: scoredTeam_def Let_def)
  with assms show ?thesis unfolding eq by (rule keyed_teams_Map_set)
qed

lemma setManager_keyed_teams:
  "keyed_teams (teams s) \<Longrightarrow> keyed_teams (teams (setManager s tn p))"
  by (auto simp: setManager_def split: option.splits
      intro!: keyed_teams_Map_set dest: keyed_teams_get)

lemma setScores_keyed_teams:
  "keyed_teams (teams s) \<Longrightarrow> keyed_teams (teams (setScores s tn scores newTotal))"
  by (auto simp: setScores_def split: option.splits
      intro!: keyed_teams_Map_set dest: keyed_teams_get)

lemma apply_op_keyed: "keyed s \<Longrightarrow> keyed (apply_op s op)"
  unfolding keyed_iff
  by (cases op)
     (simp_all add: addPlayer_keyed_teams removePlayer_keyed_teams submitScore_keyed_teams
        setManager_keyed_teams setScores_keyed_teams distinct_Map_set distinct_Map_delete)

lemma run_keyed: "keyed (run (initial_session c h now hc) ops)"
proof (induction ops rule: rev_induct)
  case Nil
  then show ?case by (simp add: run_def initial_session_def new_GameState_def keyed_def)
next
  case (snoc op ops)
  then show ?case unfolding run_snoc by (rule apply_op_keyed)
qed

lemma load_save_keyed:
  assumes "keyed s" and "valid_time now" and "now' \<le> now + 4 * 60 * 60 * 1000"
  shows "\<exists>s'. loadGameState (saveGameState db code s now) code now' = Some s'
           \<and> teams s' = teams s \<and> buzzedPlayers s' = buzzedPlayers s
           \<and> currentGame s' = currentGame s \<and> currentRound s' = currentRound s
           \<and> games s' = Some (or_empty (games s))
           \<and> gameStarted s' = gameStarted s \<and> gameEnded s' = gameEnded s
           \<and> scoringEnabled s' = scoringEnabled s"
proof -
  have t: "Map_new (map (\<lambda>t. (t_name t, t)) (Map_values (teams s))) = teams s"
    using assms(1) by (simp add: keyed_def named_entries Map_new_distinct)
  have e: "js_add now 14400000 = now + 14400000"
    using assms(2) by (intro js_add_exact) (simp add: valid_time_def)
  show ?thesis using assms(3)
    by (simp add: loadGameState_def saveGameState_def Map_get_Map_set or_empty_def t e
        new_GameState_def)
qed

text \<open>
  Claim C5, as amended. For a session reached from a new one by any operations, saving
  it and loading the record no later than four hours after the save yields a session
  whose teams (names, members, scores, managers), buzz queue, cursor and flags are those
  of the original, and whose games list is the original's, or the empty list when the
  original's was undefined.
\<close>

theorem restore_round_trip:
  assumes "s = run (initial_session c h t0 hc) ops"
    and "valid_time now" and "now' \<le> now + 4 * 60 * 60 * 1000"
  shows "\<exists>s'. loadGameState (saveGameState db code s now) code now' = Some s'
           \<and> teams s' = teams s \<and> buzzedPlayers s' = buzzedPlayers s
           \<and> currentGame s' = currentGame s \<and> currentRound s' = currentRound s
           \<and> games s' = Some (or_empty (games s))
           \<and> gameStarted s' = gameStarted s \<and> gameEnded s' = gameEnded s
           \<and> scoringEnabled s' = scoringEnabled s"
  using load_save_keyed [OF _ assms(2,3), of s db code] run_keyed [of c h t0 hc ops] assms(1)
  by simp

text \<open>
  Claim C5 as stated fails: a record read after its \<^verbatim>\<open>expiresAt\<close> is ignored and
  \<^verbatim>\<open>loadGameState\<close> returns \<^verbatim>\<open>null\<close>; and a session whose games list is undefined, as
  after a \<^verbatim>\<open>GAME_STARTED\<close> without games, comes back with the empty list.
\<close>

theorem restore_not_identical:
  "loadGameState (saveGameState [] ''123456'' (initial_session ''123456'' ''host'' 0 (Some 10)) 0)
     ''123456'' 14400001 = None
   \<and> games (run (initial_session ''123456'' ''host'' 0 (Some 10)) [GameStarted None 1 1]) = None
   \<and> map_option games
        (loadGameState
           (saveGameState [] ''123456''
              (run (initial_session ''123456'' ''host'' 0 (Some 10)) [GameStarted None 1 1]) 0)
           ''123456'' 1000)
       = Some (Some [])"
  by (simp add: loadGameState_def saveGameState_def Map_get_def js_add_exact session_defs
      or_empty_def Map_new_def)

theorem restore_round_trip_witness:
  "valid_time 1000
   \<and> (2000 :: int) \<le> 1000 + 4 * 60 * 60 * 1000
   \<and> map_option buzzedPlayers
        (loadGameState (saveGameState [] ''123456''
           (run (initial_session ''123456'' ''host'' 0 (Some 10))
              [AddPlayer ''p1'' ann, GameStarted (Some two_games) 1 1, Buzz ''p1'' 500]) 1000)
           ''123456'' 2000)
       = Some [\<lparr> b_playerId = ''p1'', b_playerName = ''Ann'', b_teamName = ''Red'',
                  b_timestamp = 500 \<rparr>]
   \<and> map_option teams
        (loadGameState (saveGameState [] ''123456''
           (run (initial_session ''123456'' ''host'' 0 (Some 10))
              [AddPlayer ''p1'' ann, GameStarted (Some two_games) 1 1, Buzz ''p1'' 500]) 1000)
           ''123456'' 2000)
       = Some [(''Red'', red_team)]
   \<and> map_option games
        (loadGameState (saveGameState [] ''123456''
           (run (initial_session ''123456'' ''host'' 0 (Some 10))
              [AddPlayer ''p1'' ann, GameStarted (Some two_games) 1 1, Buzz ''p1'' 500]) 1000)
           ''123456'' 2000)
       = Some (Some two_games)"
proof -
  let ?s = "run (initial_session ''123456'' ''host'' 0 (Some 10))
          [AddPlayer ''p1'' ann, GameStarted (Some two_games) 1 1, Buzz ''p1'' 500]"
  have a: "valid_time 1000" by (simp add: valid_time_def)
  have b: "(2000 :: int) \<le> 1000 + 4 * 60 * 60 * 1000" by simp
  have c: "buzzedPlayers ?s
       = [\<lparr> b_playerId = ''p1'', b_playerName = ''Ann'', b_teamName = ''Red'', b_timestamp = 500 \<rparr>]"
    by (simp add: session_defs handleBuzz_def)
  have d: "teams ?s = [(''Red'', red_team)]" by (simp add: session_defs handleBuzz_def)
  have e: "games ?s = Some two_games" by (simp add: session_defs handleBuzz_def)
  from restore_round_trip [where s = ?s and c = "''123456''" and h = "''host''" and ?t0.0 = 0
      and hc = "Some 10"
      and ops = "[AddPlayer ''p1'' ann, GameStarted (Some two_games) 1 1, Buzz ''p1'' 500]"
      and db = "[]" and code = "''123456''", OF refl a b]
  obtain s' where "loadGameState (saveGameState [] ''123456'' ?s 1000) ''123456'' 2000 = Some s'"
    "teams s' = teams ?s" "buzzedPlayers s' = buzzedPlayers ?s"
    "games s' = Some (or_empty (games ?s))"
    by blast
  with a b c d e show ?thesis by (simp add: or_empty_def)
qed

section \<open>Creating a game under a resident code\<close>

lemma uniqueGameCode_finds:
  assumes "\<not> Map_has gs (rnd k)" and "i \<le> k"
  shows "\<exists>c. uniqueGameCode gs rnd i code = Some c \<and> \<not> Map_has gs c"
  using assms(2)
proof (induction "k - i" arbitrary: i code)
  case 0
  then have i: "i = k" by simp
  show ?case
    using assms(1)
    by (subst uniqueGameCode.simps, subst uniqueGameCode.simps) (simp add: i)
next
  case (Suc n)
  then have "n = k - Suc i" "Suc i \<le> k" by simp_all
  from Suc.hyps(1) [OF this] obtain c where
    "uniqueGameCode gs rnd (Suc i) (rnd i) = Some c" "\<not> Map_has gs c" by blast
  then show ?case by (subst uniqueGameCode.simps) simp
qed

lemma Map_has_keys: "Map_has m k \<longleftrightarrow> k \<in> set (map fst m)"
  by (simp add: Map_has_def map_of_eq_None_iff)

lemma Map_has_get: "Map_has m k \<longleftrightarrow> Map_get m k \<noteq> None"
  by (simp add: Map_has_def Map_get_def)

text \<open>
  Claim C8. When \<^verbatim>\<open>CREATE_GAME\<close> asks for a code that is resident in the registry, and
  the generator yields an unused code at some draw, \<^verbatim>\<open>handleCreateGame\<close> returns: it
  takes a code that was unused, appends a new session under it with the sender as host
  connection, binds the sender as host of that code, and leaves every session that was
  in the registry, the one under the requested code among them, as it was.
\<close>

theorem createGame_resident_code:
  assumes "Map_has (srv_games srv) c" and "c \<noteq> []"
    and "\<not> Map_has (srv_games srv) (rnd k)"
  shows "\<exists>srv' code.
           handleCreateGame srv rnd now saveNow sender \<lparr> cm_gameCode = Some c, cm_hostId = h \<rparr>
             = Some (srv', [(sender, GAME_CREATED code False)])
           \<and> \<not> Map_has (srv_games srv) code
           \<and> Map_get (srv_games srv') code
               = Some ((new_GameState code h now) \<lparr> hostConnection := Some sender \<rparr>)
           \<and> Map_get (srv_games srv') c = Map_get (srv_games srv) c
           \<and> srv_games srv' = srv_games srv
                 @ [(code, (new_GameState code h now) \<lparr> hostConnection := Some sender \<rparr>)]
           \<and> Map_get (srv_connections srv') sender
               = Some \<lparr> c_type = Host, c_gameCode = code, c_hostId = Some h,
                        c_playerId = None, c_teamName = None \<rparr>"
proof -
  have "0 \<le> k" by simp
  from uniqueGameCode_finds [where gs = "srv_games srv" and rnd = rnd and k = k, OF assms(3) this]
  obtain code where u: "uniqueGameCode (srv_games srv) rnd 0 c = Some code"
    and f: "\<not> Map_has (srv_games srv) code" by auto
  from f assms(1) have ne: "c \<noteq> code" by auto
  from f have fresh: "code \<notin> set (map fst (srv_games srv))" by (simp add: Map_has_keys)
  let ?g = "(new_GameState code h now) \<lparr> hostConnection := Some sender \<rparr>"
  let ?srv' = "srv \<lparr> srv_games := Map_set (srv_games srv) code ?g,
                       srv_db := saveGameState (srv_db srv) code ?g saveNow,
                       srv_connections := Map_set (srv_connections srv) sender
                         \<lparr> c_type = Host, c_gameCode = code, c_hostId = Some h,
                           c_playerId = None, c_teamName = None \<rparr> \<rparr>"
  have r: "handleCreateGame srv rnd now saveNow sender \<lparr> cm_gameCode = Some c, cm_hostId = h \<rparr>
             = Some (?srv', [(sender, GAME_CREATED code False)])"
    using u assms(2) by (simp add: handleCreateGame_def Let_def)
  have "Map_get (srv_games ?srv') code = Some ?g" by (simp add: Map_get_Map_set)
  moreover have "Map_get (srv_games ?srv') c = Map_get (srv_games srv) c"
    using ne by (simp add: Map_get_Map_set)
  moreover have "srv_games ?srv' = srv_games srv @ [(code, ?g)]"
    by (simp add: Map_set_fresh [OF fresh])
  moreover have "Map_get (srv_connections ?srv') sender
               = Some \<lparr> c_type = Host, c_gameCode = code, c_hostId = Some h,
                        c_playerId = None, c_teamName = None \<rparr>"
    by (simp add: Map_get_Map_set)
  ultimately show ?thesis using r f by blast
qed

theorem createGame_resident_code_witness:
  "Map_has (srv_games two_servers) ''123456''
   \<and> ''123456'' \<noteq> []
   \<and> \<not> Map_has (srv_games two_servers) (exampleCodes 1)
   \<and> map_option snd (handleCreateGame two_servers exampleCodes 50 51 7
            \<lparr> cm_gameCode = Some ''123456'', cm_hostId = ''h2'' \<rparr>)
       = Some [(7, GAME_CREATED ''100001'' False)]
   \<and> map_option (\<lambda>r. Map_get (srv_games (fst r)) ''123456'')
        (handleCreateGame two_servers exampleCodes 50 51 7
            \<lparr> cm_gameCode = Some ''123456'', cm_hostId = ''h2'' \<rparr>)
       = Some (Some red_game)"
proof -
  have a: "Map_has (srv_games two_servers) ''123456''"
    by (simp add: two_servers_def Map_has_def)
  have b: "''123456'' \<noteq> []" by simp
  have c: "\<not> Map_has (srv_games two_servers) (exampleCodes 1)"
    by (simp add: two_servers_def Map_has_def exampleCodes_def)
  have u: "uniqueGameCode (srv_games two_servers) exampleCodes 0 ''123456'' = Some ''100001''"
    by (subst uniqueGameCode.simps, subst uniqueGameCode.simps, subst uniqueGameCode.simps)
       (simp add: two_servers_def Map_has_def exampleCodes_def)
  note th = createGame_resident_code [where srv = two_servers and rnd = exampleCodes and k = 1
      and now = 50 and saveNow = 51 and sender = 7 and h = "''h2''", OF a b c]
  have d: "map_option snd (handleCreateGame two_servers exampleCodes 50 51 7
            \<lparr> cm_gameCode = Some ''123456'', cm_hostId = ''h2'' \<rparr>)
       = Some [(7, GAME_CREATED ''100001'' False)]"
    by (simp add: handleCreateGame_def u Let_def)
  have e: "map_option (\<lambda>r. Map_get (srv_games (fst r)) ''123456'')
        (handleCreateGame two_servers exampleCodes 50 51 7
            \<lparr> cm_gameCode = Some ''123456'', cm_hostId = ''h2'' \<rparr>)
       = Some (Some red_game)"
    by (simp add: handleCreateGame_def u Map_get_Map_set Let_def)
       (simp add: two_servers_def Map_get_def)
  from th a b c d e show ?thesis by simp
qed

section \<open>The buzz queue\<close>

lemma Map_get_Map_delete:
  "Map_get (Map_delete m k) k' = (if k' = k then None else Map_get m k')"
  by (induction m) (auto simp: Map_get_def Map_delete_def)

lemma set_splice_first: "x \<in> set (splice_first P xs) \<Longrightarrow> x \<in> set xs"
  by (induction xs) (auto split: if_splits)

lemma distinct_map_splice_first:
  "distinct (map f xs) \<Longrightarrow> distinct (map f (splice_first P xs))"
  by (induction xs) (auto dest: set_splice_first)

lemma distinct_map_butlast: "distinct (map f xs) \<Longrightarrow> distinct (map f (butlast xs))"
  by (induction xs) (auto dest: in_set_butlastD)

lemma buzzed_unchanged [simp]:
  "buzzedPlayers (addPlayer s pid pd) = buzzedPlayers s"
  "buzzedPlayers (startGame s gs cg cr) = buzzedPlayers s"
  "buzzedPlayers (roundUpdate s cg cr) = buzzedPlayers s"
  "buzzedPlayers (enableScoring s) = buzzedPlayers s"
  "buzzedPlayers (revealFinalScores s) = buzzedPlayers s"
  "buzzedPlayers (submitScore s pid tn v g r) = buzzedPlayers s"
  "buzzedPlayers (setManager s tn p) = buzzedPlayers s"
  "buzzedPlayers (setScores s tn scores newTotal) = buzzedPlayers s"
  by (simp_all add: startGame_def roundUpdate_def enableScoring_def revealFinalScores_def
      submitScore_def setManager_def setScores_def addPlayer_def Let_def
      split: option.splits outcome.splits)

lemma addPlayer_buzz_ok:
  assumes "buzz_ok s" and "keeps_team s (AddPlayer pid pd)"
  shows "buzz_ok (addPlayer s pid pd)"
  using assms
  by (auto simp: buzz_ok_def keeps_team_def Map_get_Map_set split: option.splits)

lemma removePlayer_buzz_ok:
  assumes "buzz_ok s"
  shows "buzz_ok (removePlayer s pid)"
proof -
  have b: "buzzedPlayers (removePlayer s pid) = filter (\<lambda>b. b_playerId b \<noteq> pid) (buzzedPlayers s)"
    by (simp add: removePlayer_def Let_def)
  show ?thesis using assms
    unfolding buzz_ok_def b by (auto simp: distinct_map_filter Map_get_Map_delete)
qed

lemma handleBuzz_buzz_ok:
  assumes "buzz_ok s"
  shows "buzz_ok (snd (handleBuzz s pid now))"
proof (cases "fst (handleBuzz s pid now)")
  case False
  then have "snd (handleBuzz s pid now) = s"
    by (auto simp: handleBuzz_def split: option.splits if_splits)
  with assms show ?thesis by simp
next
  case True
  then obtain pl where pl: "Map_get (players s) pid = Some pl"
    and free: "\<not> list_ex (\<lambda>b. case Map_get (players s) (b_playerId b) of
                                  None \<Rightarrow> False
                                | Some buzzedPlayer \<Rightarrow> p_teamName buzzedPlayer = p_teamName pl)
                          (buzzedPlayers s)"
    and r: "snd (handleBuzz s pid now) =
        s \<lparr> buzzedPlayers := buzzedPlayers s @
               [\<lparr> b_playerId = pid, b_playerName = p_name pl,
                  b_teamName = p_teamName pl, b_timestamp = now \<rparr>] \<rparr>"
    by (auto simp: handleBuzz_def split: option.splits if_splits)
  have "p_teamName pl \<notin> set (map b_teamName (buzzedPlayers s))"
  proof
    assume "p_teamName pl \<in> set (map b_teamName (buzzedPlayers s))"
    then obtain b where b: "b \<in> set (buzzedPlayers s)" "b_teamName b = p_teamName pl" by auto
    with assms obtain q where "Map_get (players s) (b_playerId b) = Some q"
      "p_teamName q = b_teamName b" by (auto simp: buzz_ok_def)
    with b free show False by (auto simp: list_ex_iff)
  qed
  with assms pl show ?thesis unfolding r buzz_ok_def by auto
qed

lemma clear_buzz_ok:
  assumes "buzz_ok s"
  shows "buzz_ok (clearAllBuzzes s)" "buzz_ok (clearBuzzFor s pid)" "buzz_ok (popLastBuzz s)"
    "buzz_ok (playerDisconnected s pid)"
  using assms
  by (auto simp: buzz_ok_def clearAllBuzzes_def clearBuzzFor_def popLastBuzz_def
      playerDisconnected_def distinct_map_splice_first distinct_map_filter
      distinct_map_butlast dest: set_splice_first in_set_butlastD)

lemma apply_op_buzz_ok:
  assumes "buzz_ok s" and "keeps_team s op"
  shows "buzz_ok (apply_op s op)"
proof (cases op)
  case (AddPlayer pid pd)
  then show ?thesis using addPlayer_buzz_ok assms by simp
next
  case (RemovePlayer pid)
  then show ?thesis using removePlayer_buzz_ok assms by simp
next
  case (Buzz pid now)
  then show ?thesis using handleBuzz_buzz_ok assms by simp
qed (use assms(1) clear_buzz_ok [OF assms(1)] in \<open>simp_all add: buzz_ok_def\<close>)

lemma run_buzz_ok: "buzz_ok s \<Longrightarrow> no_team_switch s ops \<Longrightarrow> buzz_ok (run s ops)"
proof (induction ops arbitrary: s)
  case Nil
  then show ?case by (simp add: run_def)
next
  case (Cons op ops)
  then have "buzz_ok (apply_op s op)" "no_team_switch (apply_op s op) ops"
    by (simp_all add: apply_op_buzz_ok)
  then have "buzz_ok (run (apply_op s op) ops)" by (rule Cons.IH)
  then show ?case by (simp add: run_def)
qed

text \<open>
  While no \<^verbatim>\<open>addPlayer\<close> moves a known player to another team, the queue holds at most
  one record per team name.
\<close>

lemma buzz_queue_distinct_without_team_switch:
  assumes "no_team_switch (initial_session c h now hc) ops"
  shows "distinct (map b_teamName (buzzedPlayers (run (initial_session c h now hc) ops)))"
proof -
  have "buzz_ok (initial_session c h now hc)" by (simp add: buzz_ok_def initial_session_def new_GameState_def)
  from run_buzz_ok [OF this assms] show ?thesis by (simp add: buzz_ok_def)
qed

text \<open>
  Claim C2. The queue is to hold at most one record per team name. \<^verbatim>\<open>handleBuzz\<close> looks
  for a pending record whose player is \<^emph>\<open>now\<close> on the buzzing player's team, not for one
  that carries the team's name: after p1 of Red has buzzed and then joined Blue, p2 of
  Red is admitted, and the queue holds two records named Red.
\<close>

theorem buzz_two_records_same_team:
  "map b_teamName (buzzedPlayers (run (initial_session ''123456'' ''host'' 0 (Some 10))
      [AddPlayer ''p1'' ann, AddPlayer ''p2'' bob, GameStarted (Some two_games) 1 1,
       Buzz ''p1'' 100, AddPlayer ''p1'' (ann \<lparr> p_teamName := ''Blue'' \<rparr>),
       Buzz ''p2'' 200]))
   = [''Red'', ''Red'']"
  by (simp add: session_defs handleBuzz_def)

end
